theory Spec2Isabelle
  imports Main
begin

section \<open>JavaScript values and maps\<close>

text \<open>
  The identifiers that travel in the payloads (\<open>channelId\<close>, \<open>userId\<close>, \<open>targetUserId\<close>,
  \<open>to\<close>, \<open>timestamp\<close>) are JSON primitives. A field that is absent from a payload reads as
  \<open>Undefined\<close>. On primitives the strict equality \<open>===\<close> and the key equality of a
  JavaScript \<open>Map\<close> are both structural equality. The negotiation payloads (offer, answer,
  candidate) are never inspected by the server, so the same type stands for them.
\<close>

datatype jsval = Undefined | Null | JBool bool | JNum int | JStr string

text \<open>JavaScript's truthiness, as tested by \<open>if (x)\<close>, \<open>x && y\<close> and \<open>x || y\<close>.\<close>

fun truthy :: "jsval \<Rightarrow> bool" where
  "truthy Undefined = False"
| "truthy Null = False"
| "truthy (JBool b) = b"
| "truthy (JNum n) = (n \<noteq> 0)"
| "truthy (JStr s) = (s \<noteq> [])"

text \<open>
  A JavaScript \<open>Map\<close> keeps its entries in insertion order: it is an association list.
  \<open>set\<close> on a key that is present replaces the value where it stands, \<open>set\<close> on a new key
  appends, \<open>delete\<close> removes the entry. \<open>js_update\<close> is the mutation of the object stored
  under a key through a reference obtained with \<open>get\<close>.
\<close>

definition js_get :: "'k \<Rightarrow> ('k \<times> 'v) list \<Rightarrow> 'v option" where
  "js_get k m = map_of m k"

definition js_has :: "'k \<Rightarrow> ('k \<times> 'v) list \<Rightarrow> bool" where
  "js_has k m = (js_get k m \<noteq> None)"

fun js_set :: "'k \<Rightarrow> 'v \<Rightarrow> ('k \<times> 'v) list \<Rightarrow> ('k \<times> 'v) list" where
  "js_set k v [] = [(k, v)]"
| "js_set k v ((k', v') # m) = (if k' = k then (k, v) # m else (k', v') # js_set k v m)"

definition js_delete :: "'k \<Rightarrow> ('k \<times> 'v) list \<Rightarrow> ('k \<times> 'v) list" where
  "js_delete k m = filter (\<lambda>e. fst e \<noteq> k) m"

definition js_update :: "'k \<Rightarrow> ('v \<Rightarrow> 'v) \<Rightarrow> ('k \<times> 'v) list \<Rightarrow> ('k \<times> 'v) list" where
  "js_update k f m = map (\<lambda>e. if fst e = k then (fst e, f (snd e)) else e) m"

definition js_keys :: "('k \<times> 'v) list \<Rightarrow> 'k list" where
  "js_keys m = map fst m"

definition js_values :: "('k \<times> 'v) list \<Rightarrow> 'v list" where
  "js_values m = map snd m"

definition js_size :: "('k \<times> 'v) list \<Rightarrow> nat" where
  "js_size m = length m"

section \<open>The server state\<close>

text \<open>
  The two source files (the relay server, version 1.0.0, and the WebRTC server, version
  2.0.0) keep the same two module-level maps, \<open>channels\<close> and \<open>users\<close>, and have the same
  \<open>connection\<close>, \<open>join-channel\<close>, \<open>leave-channel\<close> and \<open>disconnect\<close> handlers, line for
  line. Dates are integers (milliseconds); every handler takes the clock reading \<open>now\<close>
  where the source calls \<open>new Date()\<close> or \<open>Date.now()\<close>.
\<close>

record membership =
  m_userId :: jsval
  m_socketId :: string
  m_joinedAt :: int

record channel =
  c_id :: jsval
  c_users :: "(string \<times> membership) list"
  c_createdAt :: int
  c_messageCount :: nat

record user =
  u_socketId :: string
  u_connectedAt :: int
  u_currentChannel :: jsval
  u_userId :: jsval

text \<open>
  The transport library (socket.io) is not part of the repository. Its state is the list
  of live connections (\<open>sockets\<close>) and the bindings of connections to rooms (\<open>rooms\<close>, in
  the order in which they were made). A room is named by any value; the handlers name
  rooms by the caller-supplied channel ids. When a connection opens, the transport binds
  it to the room named by its own id, before the \<open>connection\<close> handler runs. The handlers
  use the transport through \<open>socket.emit\<close> (deliver to the handler's own connection),
  \<open>io.to(room).emit\<close> (deliver to every connection bound to the room),
  \<open>socket.to(room).emit\<close> (deliver to every connection bound to the room except the sender)
  and \<open>socket.join\<close> / \<open>socket.leave\<close>. The signaling handlers call \<open>io.to\<close> with a socket
  id: they address the room of that name, which holds the connection with that id for as
  long as it stays bound to it, and also every connection that joined a channel of that
  name. Nothing keeps a caller from naming a channel by a socket id, and \<open>socket.leave\<close>
  with a connection's own id unbinds it from its own room.
\<close>

record server =
  channels :: "(jsval \<times> channel) list"
  users :: "(string \<times> user) list"
  sockets :: "string list"
  rooms :: "(string \<times> jsval) list"

definition init :: server where
  "init = \<lparr>channels = [], users = [], sockets = [], rooms = []\<rparr>"

text \<open>An inbound payload: the fields that some handler destructures, and the optional
  client \<open>timestamp\<close>. A payload is an object: an event sent without one makes the
  handler's destructuring throw before the handler has any effect, and is not modelled.\<close>

record payload =
  p_channelId :: jsval
  p_userId :: jsval
  p_timestamp :: jsval
  p_targetUserId :: jsval
  p_to :: jsval
  p_offer :: jsval
  p_answer :: jsval
  p_candidate :: jsval
  p_audioData :: jsval

definition no_payload :: payload where
  "no_payload = \<lparr>p_channelId = Undefined, p_userId = Undefined, p_timestamp = Undefined,
     p_targetUserId = Undefined, p_to = Undefined, p_offer = Undefined, p_answer = Undefined,
     p_candidate = Undefined, p_audioData = Undefined\<rparr>"

text \<open>Outbound events, one constructor per event name and payload shape. The suffix
  \<open>A\<close> marks the channel-scoped signaling of the relay server (\<open>{userId, ...}\<close>), the suffix
  \<open>B\<close> the globally addressed signaling of the WebRTC server (\<open>{from, ...}\<close>).\<close>

datatype event =
    Connected string jsval
  | Channel_users "jsval list"
  | User_joined jsval
  | User_left jsval
  | Transmission_start jsval jsval
  | Transmission_end jsval jsval
  | Audio_received jsval jsval jsval
  | Offer_A jsval jsval
  | Answer_A jsval jsval
  | Ice_A jsval jsval
  | Offer_B jsval jsval
  | Answer_B jsval jsval
  | Ice_B jsval jsval

type_synonym outbound = "(string \<times> event) list"

subsection \<open>Transport primitives\<close>

definition socket_emit :: "string \<Rightarrow> event \<Rightarrow> outbound" where
  "socket_emit sid e = [(sid, e)]"

definition room_sockets :: "server \<Rightarrow> jsval \<Rightarrow> string list" where
  "room_sockets s r = map fst (filter (\<lambda>b. snd b = r) (rooms s))"

definition socket_to :: "server \<Rightarrow> string \<Rightarrow> jsval \<Rightarrow> event \<Rightarrow> outbound" where
  "socket_to s sid r e = map (\<lambda>k. (k, e)) (filter (\<lambda>k. k \<noteq> sid) (room_sockets s r))"

definition io_to :: "server \<Rightarrow> string \<Rightarrow> event \<Rightarrow> outbound" where
  "io_to s t e = map (\<lambda>k. (k, e)) (room_sockets s (JStr t))"

definition socket_join :: "string \<Rightarrow> jsval \<Rightarrow> server \<Rightarrow> server" where
  "socket_join sid r s =
     s\<lparr>rooms := (if (sid, r) \<in> set (rooms s) then rooms s else rooms s @ [(sid, r)])\<rparr>"

definition socket_leave :: "string \<Rightarrow> jsval \<Rightarrow> server \<Rightarrow> server" where
  "socket_leave sid r s = s\<lparr>rooms := filter (\<lambda>b. b \<noteq> (sid, r)) (rooms s)\<rparr>"

text \<open>When a connection opens, the transport records it and binds it to the room of its
  own id. When a connection closes, the transport unbinds it from every room and then
  runs the \<open>disconnect\<close> handler.\<close>

definition transport_open :: "string \<Rightarrow> server \<Rightarrow> server" where
  "transport_open sid s =
     socket_join sid (JStr sid)
       (s\<lparr>sockets := (if sid \<in> set (sockets s) then sockets s else sockets s @ [sid])\<rparr>)"

definition transport_close :: "string \<Rightarrow> server \<Rightarrow> server" where
  "transport_close sid s =
     s\<lparr>sockets := removeAll sid (sockets s), rooms := filter (\<lambda>b. fst b \<noteq> sid) (rooms s)\<rparr>"

definition events_to :: "string \<Rightarrow> outbound \<Rightarrow> event list" where
  "events_to k out = map snd (filter (\<lambda>d. fst d = k) out)"

section \<open>Presence: connection, join-channel, leave-channel, disconnect\<close>

definition on_connection :: "string \<Rightarrow> int \<Rightarrow> server \<Rightarrow> server \<times> outbound" where
  "on_connection sid now s =
     (s\<lparr>users := js_set sid
           \<lparr>u_socketId = sid, u_connectedAt = now, u_currentChannel = Null, u_userId = Null\<rparr>
           (users s)\<rparr>,
      socket_emit sid (Connected sid (JNum now)))"

definition connection :: "string \<Rightarrow> int \<Rightarrow> server \<Rightarrow> server \<times> outbound" where
  "connection sid now s = on_connection sid now (transport_open sid s)"

definition new_channel :: "jsval \<Rightarrow> int \<Rightarrow> channel" where
  "new_channel channelId now =
     \<lparr>c_id = channelId, c_users = [], c_createdAt = now, c_messageCount = 0\<rparr>"

definition userList :: "string \<Rightarrow> channel \<Rightarrow> jsval list" where
  "userList sid ch =
     map m_userId (filter (\<lambda>u. m_socketId u \<noteq> sid) (js_values (c_users ch)))"

definition join_channel :: "string \<Rightarrow> int \<Rightarrow> payload \<Rightarrow> server \<Rightarrow> server \<times> outbound" where
  "join_channel sid now p s =
     (let channelId = p_channelId p;
          userId = p_userId p;
          s1 = (if \<not> js_has channelId (channels s)
                then s\<lparr>channels := js_set channelId (new_channel channelId now) (channels s)\<rparr>
                else s);
          s2 = s1\<lparr>channels := js_update channelId
                 (\<lambda>ch. ch\<lparr>c_users := js_set sid
                    \<lparr>m_userId = userId, m_socketId = sid, m_joinedAt = now\<rparr> (c_users ch)\<rparr>)
                 (channels s1)\<rparr>;
          s3 = s2\<lparr>users := js_update sid
                 (\<lambda>u. u\<lparr>u_currentChannel := channelId, u_userId := userId\<rparr>) (users s2)\<rparr>;
          s4 = socket_join sid channelId s3;
          snapshot = (case js_get channelId (channels s4) of
                        None \<Rightarrow> []
                      | Some ch \<Rightarrow> userList sid ch)
      in (s4, socket_emit sid (Channel_users snapshot)
              @ socket_to s4 sid channelId (User_joined userId)))"

text \<open>The block shared by \<open>leave-channel\<close> and \<open>disconnect\<close>: delete the member, broadcast
  \<open>user-left\<close> to the room, delete the channel if it is empty. In \<open>leave-channel\<close> the
  connection is unbound from the room first; in \<open>disconnect\<close> the transport already did it.\<close>

definition delete_if_empty :: "jsval \<Rightarrow> server \<Rightarrow> server" where
  "delete_if_empty channelId s =
     (case js_get channelId (channels s) of
        None \<Rightarrow> s
      | Some ch \<Rightarrow> if js_size (c_users ch) = 0
                   then s\<lparr>channels := js_delete channelId (channels s)\<rparr> else s)"

definition users_delete :: "string \<Rightarrow> jsval \<Rightarrow> server \<Rightarrow> server" where
  "users_delete sid channelId s =
     s\<lparr>channels := js_update channelId
          (\<lambda>ch. ch\<lparr>c_users := js_delete sid (c_users ch)\<rparr>) (channels s)\<rparr>"

definition leave_channel :: "string \<Rightarrow> payload \<Rightarrow> server \<Rightarrow> server \<times> outbound" where
  "leave_channel sid p s =
     (let channelId = p_channelId p;
          userId = p_userId p;
          r = (case js_get channelId (channels s) of
                 None \<Rightarrow> (s, [])
               | Some _ \<Rightarrow>
                   (let s1 = users_delete sid channelId s;
                        s2 = socket_leave sid channelId s1
                    in (delete_if_empty channelId s2,
                        socket_to s2 sid channelId (User_left userId))))
      in ((fst r)\<lparr>users := js_update sid (\<lambda>u. u\<lparr>u_currentChannel := Null\<rparr>) (users (fst r))\<rparr>,
          snd r))"

definition on_disconnect :: "string \<Rightarrow> server \<Rightarrow> server \<times> outbound" where
  "on_disconnect sid s =
     (let r = (case js_get sid (users s) of
                 None \<Rightarrow> (s, [])
               | Some user \<Rightarrow>
                   if truthy (u_currentChannel user)
                   then (case js_get (u_currentChannel user) (channels s) of
                           None \<Rightarrow> (s, [])
                         | Some _ \<Rightarrow>
                             (let s1 = users_delete sid (u_currentChannel user) s
                              in (delete_if_empty (u_currentChannel user) s1,
                                  socket_to s1 sid (u_currentChannel user)
                                    (User_left (u_userId user)))))
                   else (s, []))
      in ((fst r)\<lparr>users := js_delete sid (users (fst r))\<rparr>, snd r))"

definition disconnect :: "string \<Rightarrow> server \<Rightarrow> server \<times> outbound" where
  "disconnect sid s = on_disconnect sid (transport_close sid s)"

text \<open>The periodic sweep (both files): for every entry of \<open>channels\<close> whose member map is
  empty, \<open>channels.delete(channelId)\<close>.\<close>

definition sweep :: "server \<Rightarrow> server" where
  "sweep s =
     s\<lparr>channels := foldl (\<lambda>m (channelId, ch).
                        if js_size (c_users ch) = 0 then js_delete channelId m else m)
                     (channels s) (channels s)\<rparr>"

section \<open>Transmission and media relay\<close>

text \<open>
  \<open>transmission-start\<close> and \<open>transmission-end\<close> destructure \<open>{ channelId, userId }\<close> only and
  send \<open>{ userId, timestamp: Date.now() }\<close>. The WebRTC server's \<open>transmission-start\<close> also
  increments the channel's \<open>messageCount\<close>; the relay server's does not. \<open>transmission-end\<close>
  is the same in both files. \<open>audio-data\<close> (relay server only) is the handler that reads the
  client's \<open>timestamp\<close>: it sends \<open>timestamp || Date.now()\<close>.
\<close>

definition incrementMessageCount :: "jsval \<Rightarrow> server \<Rightarrow> server" where
  "incrementMessageCount channelId s =
     s\<lparr>channels := js_update channelId
          (\<lambda>ch. ch\<lparr>c_messageCount := c_messageCount ch + 1\<rparr>) (channels s)\<rparr>"

definition transmission_start_A :: "string \<Rightarrow> int \<Rightarrow> payload \<Rightarrow> server \<Rightarrow> server \<times> outbound" where
  "transmission_start_A sid now p s =
     (s, socket_to s sid (p_channelId p) (Transmission_start (p_userId p) (JNum now)))"

definition transmission_start_B :: "string \<Rightarrow> int \<Rightarrow> payload \<Rightarrow> server \<Rightarrow> server \<times> outbound" where
  "transmission_start_B sid now p s =
     (incrementMessageCount (p_channelId p) s,
      socket_to s sid (p_channelId p) (Transmission_start (p_userId p) (JNum now)))"

definition transmission_end :: "string \<Rightarrow> int \<Rightarrow> payload \<Rightarrow> server \<Rightarrow> server \<times> outbound" where
  "transmission_end sid now p s =
     (s, socket_to s sid (p_channelId p) (Transmission_end (p_userId p) (JNum now)))"

definition audio_data :: "string \<Rightarrow> int \<Rightarrow> payload \<Rightarrow> server \<Rightarrow> server \<times> outbound" where
  "audio_data sid now p s =
     (incrementMessageCount (p_channelId p) s,
      socket_to s sid (p_channelId p)
        (Audio_received (p_userId p) (p_audioData p)
           (if truthy (p_timestamp p) then p_timestamp p else JNum now)))"

section \<open>Signaling, channel-scoped (relay server)\<close>

text \<open>
  \<open>webrtc-offer\<close> destructures \<open>{ channelId, userId, offer }\<close> and always broadcasts.
  \<open>webrtc-answer\<close> always looks the target up among the channel's members.
  \<open>webrtc-ice-candidate\<close> looks the target up when \<open>targetUserId\<close> is truthy and broadcasts
  otherwise. The lookup is \<open>Array.from(channel.users.values()).find(u => u.userId ===
  targetUserId)\<close>: the first member, in insertion order, with that userId. The member found
  is addressed with \<open>io.to(targetUser.socketId)\<close>: the payload goes to the room named by the
  socket id that the member record holds.
\<close>

definition find_target :: "jsval \<Rightarrow> jsval \<Rightarrow> server \<Rightarrow> membership option" where
  "find_target channelId targetUserId s =
     (case js_get channelId (channels s) of
        None \<Rightarrow> None
      | Some ch \<Rightarrow> List.find (\<lambda>u. m_userId u = targetUserId) (js_values (c_users ch)))"

definition send_target :: "jsval \<Rightarrow> jsval \<Rightarrow> event \<Rightarrow> server \<Rightarrow> outbound" where
  "send_target channelId targetUserId e s =
     (case find_target channelId targetUserId s of
        None \<Rightarrow> []
      | Some targetUser \<Rightarrow> io_to s (m_socketId targetUser) e)"

definition webrtc_offer_A :: "string \<Rightarrow> payload \<Rightarrow> server \<Rightarrow> server \<times> outbound" where
  "webrtc_offer_A sid p s =
     (s, socket_to s sid (p_channelId p) (Offer_A (p_userId p) (p_offer p)))"

definition webrtc_answer_A :: "string \<Rightarrow> payload \<Rightarrow> server \<Rightarrow> server \<times> outbound" where
  "webrtc_answer_A sid p s =
     (s, send_target (p_channelId p) (p_targetUserId p) (Answer_A (p_userId p) (p_answer p)) s)"

definition webrtc_ice_candidate_A :: "string \<Rightarrow> payload \<Rightarrow> server \<Rightarrow> server \<times> outbound" where
  "webrtc_ice_candidate_A sid p s =
     (if truthy (p_targetUserId p)
      then (s, send_target (p_channelId p) (p_targetUserId p)
                 (Ice_A (p_userId p) (p_candidate p)) s)
      else (s, socket_to s sid (p_channelId p) (Ice_A (p_userId p) (p_candidate p))))"

section \<open>Signaling, globally addressed (WebRTC server)\<close>

text \<open>
  \<open>findSocketIdByUserId\<close> scans the whole registry in insertion order. The handlers test
  its result with \<open>if (targetSocketId)\<close>, so an empty id counts as not found, and address
  the room named by the id found with \<open>io.to(targetSocketId)\<close>. The sender is named by
  \<open>users.get(socket.id)?.userId || socket.id\<close>.
\<close>

fun findSocketIdByUserId :: "(string \<times> user) list \<Rightarrow> jsval \<Rightarrow> string option" where
  "findSocketIdByUserId [] userId = None"
| "findSocketIdByUserId ((socketId, user) # rest) userId =
     (if u_userId user = userId then Some socketId else findSocketIdByUserId rest userId)"

definition sender_name :: "string \<Rightarrow> server \<Rightarrow> jsval" where
  "sender_name sid s =
     (case js_get sid (users s) of
        None \<Rightarrow> JStr sid
      | Some user \<Rightarrow> if truthy (u_userId user) then u_userId user else JStr sid)"

definition relay_to :: "jsval \<Rightarrow> event \<Rightarrow> server \<Rightarrow> outbound" where
  "relay_to dest e s =
     (case findSocketIdByUserId (users s) dest of
        None \<Rightarrow> []
      | Some targetSocketId \<Rightarrow> if targetSocketId \<noteq> [] then io_to s targetSocketId e else [])"

definition webrtc_offer_B :: "string \<Rightarrow> payload \<Rightarrow> server \<Rightarrow> server \<times> outbound" where
  "webrtc_offer_B sid p s = (s, relay_to (p_to p) (Offer_B (sender_name sid s) (p_offer p)) s)"

definition webrtc_answer_B :: "string \<Rightarrow> payload \<Rightarrow> server \<Rightarrow> server \<times> outbound" where
  "webrtc_answer_B sid p s = (s, relay_to (p_to p) (Answer_B (sender_name sid s) (p_answer p)) s)"

definition ice_candidate_B :: "string \<Rightarrow> payload \<Rightarrow> server \<Rightarrow> server \<times> outbound" where
  "ice_candidate_B sid p s = (s, relay_to (p_to p) (Ice_B (sender_name sid s) (p_candidate p)) s)"

section \<open>Runs\<close>

text \<open>An inbound event, with the connection it arrives on and the clock reading; a run
  processes a list of them one at a time and collects the outbound events. The events of
  both servers are listed: \<open>A\<close> marks a handler of the relay server, \<open>B\<close> a handler of the
  WebRTC server, and the others are common to both. \<open>Sweep\<close> is the timer callback; the
  connection and the clock reading that come with it mean nothing. The handlers that are
  not listed (\<open>ping\<close>, \<open>get-channel-users\<close>, \<open>audio-chunk\<close>, \<open>request-webrtc-connection\<close>)
  change no state, and \<open>audio-url\<close> changes the state as \<open>audio-data\<close> does.\<close>

datatype inbound =
    Connect
  | Join payload
  | Leave payload
  | Disconnect
  | Tx_start_A payload
  | Tx_start_B payload
  | Tx_end payload
  | Audio payload
  | Sig_offer_A payload
  | Sig_answer_A payload
  | Sig_ice_A payload
  | Sig_offer_B payload
  | Sig_answer_B payload
  | Sig_ice_B payload
  | Sweep

fun handle :: "string \<times> int \<times> inbound \<Rightarrow> server \<Rightarrow> server \<times> outbound" where
  "handle (sid, now, Connect) s = connection sid now s"
| "handle (sid, now, Join p) s = join_channel sid now p s"
| "handle (sid, now, Leave p) s = leave_channel sid p s"
| "handle (sid, now, Disconnect) s = disconnect sid s"
| "handle (sid, now, Tx_start_A p) s = transmission_start_A sid now p s"
| "handle (sid, now, Tx_start_B p) s = transmission_start_B sid now p s"
| "handle (sid, now, Tx_end p) s = transmission_end sid now p s"
| "handle (sid, now, Audio p) s = audio_data sid now p s"
| "handle (sid, now, Sig_offer_A p) s = webrtc_offer_A sid p s"
| "handle (sid, now, Sig_answer_A p) s = webrtc_answer_A sid p s"
| "handle (sid, now, Sig_ice_A p) s = webrtc_ice_candidate_A sid p s"
| "handle (sid, now, Sig_offer_B p) s = webrtc_offer_B sid p s"
| "handle (sid, now, Sig_answer_B p) s = webrtc_answer_B sid p s"
| "handle (sid, now, Sig_ice_B p) s = ice_candidate_B sid p s"
| "handle (sid, now, Sweep) s = (sweep s, [])"

fun run :: "(string \<times> int \<times> inbound) list \<Rightarrow> server \<Rightarrow> server \<times> outbound" where
  "run [] s = (s, [])"
| "run (e # es) s =
     (case handle e s of (s', out) \<Rightarrow> (case run es s' of (s'', out') \<Rightarrow> (s'', out @ out')))"

text \<open>What the transport guarantees about the events it delivers: a connection id is new
  when the connection opens (it is not the id of a live connection, and no member record
  of an earlier connection is stored under it), and every other event of a connection
  arrives while the connection is live.\<close>

definition fresh :: "string \<Rightarrow> server \<Rightarrow> bool" where
  "fresh sid s =
     (sid \<notin> set (sockets s)
      \<and> list_all (\<lambda>(c, ch). sid \<notin> set (js_keys (c_users ch))) (channels s))"

fun delivered :: "(string \<times> int \<times> inbound) list \<Rightarrow> server \<Rightarrow> bool" where
  "delivered [] s = True"
| "delivered ((sid, now, ev) # es) s =
     ((if ev = Connect then fresh sid s else ev = Sweep \<or> sid \<in> set (sockets s))
      \<and> delivered es (fst (handle (sid, now, ev) s)))"

definition in_channel :: "string \<Rightarrow> string \<Rightarrow> payload" where
  "in_channel channelId userId = no_payload\<lparr>p_channelId := JStr channelId, p_userId := JStr userId\<rparr>"

text \<open>The member map of a channel, empty for a channel that is not in the directory.\<close>

definition members_of :: "server \<Rightarrow> jsval \<Rightarrow> (string \<times> membership) list" where
  "members_of s channelId =
     (case js_get channelId (channels s) of None \<Rightarrow> [] | Some ch \<Rightarrow> c_users ch)"

text \<open>A sample state: three live connections, the first two joined to channel \<open>A\<close> as
  \<open>u1\<close> and \<open>u2\<close>, the third not joined to anything.\<close>

definition lobby :: server where
  "lobby =
     \<lparr>channels =
        [(JStr ''A'',
          \<lparr>c_id = JStr ''A'',
           c_users =
             [(''s1'', \<lparr>m_userId = JStr ''u1'', m_socketId = ''s1'', m_joinedAt = 1\<rparr>),
              (''s2'', \<lparr>m_userId = JStr ''u2'', m_socketId = ''s2'', m_joinedAt = 2\<rparr>)],
           c_createdAt = 1, c_messageCount = 0\<rparr>)],
      users =
        [(''s1'', \<lparr>u_socketId = ''s1'', u_connectedAt = 0,
                   u_currentChannel = JStr ''A'', u_userId = JStr ''u1''\<rparr>),
         (''s2'', \<lparr>u_socketId = ''s2'', u_connectedAt = 0,
                   u_currentChannel = JStr ''A'', u_userId = JStr ''u2''\<rparr>),
         (''s3'', \<lparr>u_socketId = ''s3'', u_connectedAt = 0,
                   u_currentChannel = Null, u_userId = Null\<rparr>)],
      sockets = [''s1'', ''s2'', ''s3''],
      rooms = [(''s1'', JStr ''s1''), (''s2'', JStr ''s2''), (''s3'', JStr ''s3''),
               (''s1'', JStr ''A''), (''s2'', JStr ''A'')]\<rparr>"

text \<open>The events that lead from the initial state to the sample state.\<close>

definition lobby_events :: "(string \<times> int \<times> inbound) list" where
  "lobby_events =
     [(''s1'', 0, Connect), (''s2'', 0, Connect), (''s3'', 0, Connect),
      (''s1'', 1, Join (in_channel ''A'' ''u1'')), (''s2'', 2, Join (in_channel ''A'' ''u2''))]"

text \<open>Invariant I1 of the data model, for every registered connection and every channel
  of the directory: the connection's \<open>currentChannel\<close> is the channel exactly when the
  channel's member map has the connection's id.\<close>

definition I1 :: "server \<Rightarrow> bool" where
  "I1 s =
     list_all (\<lambda>(sid, user).
       list_all (\<lambda>(channelId, ch). (u_currentChannel user = channelId) = js_has sid (c_users ch))
         (channels s))
       (users s)"

text \<open>The representation invariant of the two maps and of the transport's bindings: the
  keys of a \<open>Map\<close> are distinct, a connection is bound to a room at most once, and every
  channel of the directory has at least one member, each member record stored under the
  socket id it holds.\<close>

definition good_channel :: "channel \<Rightarrow> bool" where
  "good_channel ch =
     (c_users ch \<noteq> [] \<and> distinct (js_keys (c_users ch))
      \<and> list_all (\<lambda>(k, m). m_socketId m = k) (c_users ch))"

definition well_formed :: "server \<Rightarrow> bool" where
  "well_formed s =
     (distinct (js_keys (channels s)) \<and> distinct (js_keys (users s)) \<and> distinct (sockets s)
      \<and> distinct (rooms s) \<and> list_all (\<lambda>(c, ch). good_channel ch) (channels s))"

text \<open>How the bindings of the transport relate to the directory: a connection bound to
  a room is live, and it is a member of the channel of that name unless the room is the
  one named by its own id; and a live member of a channel is bound to its room.\<close>

definition bindings_ok :: "server \<Rightarrow> bool" where
  "bindings_ok s =
     (list_all (\<lambda>(k, c). k \<in> set (sockets s) \<and> (js_has k (members_of s c) \<or> c = JStr k))
        (rooms s)
      \<and> list_all (\<lambda>(c, ch).
           list_all (\<lambda>k. k \<in> set (sockets s) \<longrightarrow> (k, c) \<in> set (rooms s)) (js_keys (c_users ch)))
           (channels s))"

text \<open>A live connection stays bound to the room of its own id unless it sends
  \<open>leave-channel\<close> for a channel named by its own id; \<open>keeps_own_room\<close> says of an inbound
  event that it is not such a leave.\<close>

definition own_rooms :: "server \<Rightarrow> bool" where
  "own_rooms s = list_all (\<lambda>k. (k, JStr k) \<in> set (rooms s)) (sockets s)"

definition keeps_own_room :: "string \<times> int \<times> inbound \<Rightarrow> bool" where
  "keeps_own_room e =
     (case e of (sid, now, ev) \<Rightarrow>
        (case ev of Leave p \<Rightarrow> p_channelId p \<noteq> JStr sid | _ \<Rightarrow> True))"

text \<open>A run that leaves a member record behind: from the sample state, \<open>s3\<close> joins \<open>A\<close>,
  then joins \<open>B\<close> without leaving \<open>A\<close>, then disconnects. The disconnect handler removes
  \<open>s3\<close> from \<open>B\<close> only.\<close>

definition stale_events :: "(string \<times> int \<times> inbound) list" where
  "stale_events =
     lobby_events @
     [(''s3'', 3, Join (in_channel ''A'' ''u3'')), (''s3'', 4, Join (in_channel ''B'' ''u3'')),
      (''s3'', 5, Disconnect)]"

section \<open>Facts about maps\<close>

lemma js_get_Nil: "js_get k [] = None"
  by (simp add: js_get_def)

lemma js_get_None_iff: "js_get k m = None \<longleftrightarrow> k \<notin> set (js_keys m)"
  by (simp add: js_get_def js_keys_def map_of_eq_None_iff)

lemma js_has_iff: "js_has k m \<longleftrightarrow> k \<in> set (js_keys m)"
  by (simp add: js_has_def js_get_None_iff)

lemma js_get_set: "js_get k (js_set k' v m) = (if k = k' then Some v else js_get k m)"
  by (induction m) (auto simp: js_get_def)

lemma js_get_update:
  "js_get k (js_update k' f m) = (if k = k' then map_option f (js_get k m) else js_get k m)"
  by (induction m) (auto simp: js_get_def js_update_def)

lemma js_get_delete: "js_get k (js_delete k' m) = (if k = k' then None else js_get k m)"
  by (induction m) (auto simp: js_get_def js_delete_def)

lemma js_keys_update: "js_keys (js_update k f m) = js_keys m"
  by (induction m) (auto simp: js_keys_def js_update_def)

lemma js_keys_set:
  "js_keys (js_set k v m) = (if k \<in> set (js_keys m) then js_keys m else js_keys m @ [k])"
  by (induction m) (force simp: js_keys_def)+

lemma js_keys_delete: "js_keys (js_delete k m) = filter (\<lambda>k'. k' \<noteq> k) (js_keys m)"
  by (induction m) (auto simp: js_keys_def js_delete_def)

lemma js_set_absent: "js_get k m = None \<Longrightarrow> js_set k v m = m @ [(k, v)]"
  by (induction m) (auto simp: js_get_def split: if_splits)

lemma js_update_absent: "js_get k m = None \<Longrightarrow> js_update k f m = m"
  by (induction m) (auto simp: js_get_def js_update_def split: if_splits)

lemma js_delete_absent: "js_get k m = None \<Longrightarrow> js_delete k m = m"
  by (induction m) (auto simp: js_get_def js_delete_def split: if_splits)

lemma js_update_append: "js_update k f (m @ m') = js_update k f m @ js_update k f m'"
  by (simp add: js_update_def)

lemma js_delete_append: "js_delete k (m @ m') = js_delete k m @ js_delete k m'"
  by (simp add: js_delete_def)

lemma js_get_append:
  "js_get k (m @ m') = (case js_get k m of None \<Rightarrow> js_get k m' | Some v \<Rightarrow> Some v)"
  unfolding js_get_def by (simp add: map_add_def)

lemma js_update_id:
  "distinct (js_keys m) \<Longrightarrow> js_get k m = Some v \<Longrightarrow> f v = v \<Longrightarrow> js_update k f m = m"
  by (induction m) (force simp: js_get_def js_update_def js_keys_def split: if_splits
      intro!: map_idI)+

section \<open>The channel directory under join and leave\<close>

lemma join_fresh:
  assumes "js_get (p_channelId p) (channels s) = None"
  shows "channels (fst (join_channel sid now p s)) =
           channels s @ [(p_channelId p, (new_channel (p_channelId p) now)
              \<lparr>c_users := [(sid, \<lparr>m_userId = p_userId p, m_socketId = sid, m_joinedAt = now\<rparr>)]\<rparr>)]"
  using assms
  by (simp add: join_channel_def Let_def js_has_def js_set_absent js_update_append
      js_update_absent socket_join_def new_channel_def) (simp add: js_update_def)

lemma channels_socket_leave: "channels (socket_leave sid r s) = channels s"
  by (simp add: socket_leave_def)

lemma channels_delete_if_empty:
  "channels (delete_if_empty c s) =
     (case js_get c (channels s) of
        None \<Rightarrow> channels s
      | Some ch \<Rightarrow> if c_users ch = [] then js_delete c (channels s) else channels s)"
  by (simp add: delete_if_empty_def js_size_def split: option.split)

lemma channels_users_delete:
  "channels (users_delete sid c s) =
     js_update c (\<lambda>ch. ch\<lparr>c_users := js_delete sid (c_users ch)\<rparr>) (channels s)"
  by (simp add: users_delete_def)

lemma channels_leave_channel:
  "channels (fst (leave_channel sid q s)) =
     (case js_get (p_channelId q) (channels s) of
        None \<Rightarrow> channels s
      | Some _ \<Rightarrow> channels (delete_if_empty (p_channelId q) (users_delete sid (p_channelId q) s)))"
  by (simp add: leave_channel_def Let_def channels_delete_if_empty channels_socket_leave
      split: option.split)

text \<open>
  Claim C5. A connection joins a channel that is not in the directory and then leaves it
  (any userId in either payload, any clock reading). After the join the channel's only
  member is the joiner; the removal inside the leave handler brings the member map to
  empty; when the leave handler has finished the channel id is absent from the directory,
  and the directory is exactly what it was before the join.
\<close>

theorem join_then_leave_restores_directory:
  assumes absent: "js_get (p_channelId p) (channels s) = None"
      and same: "p_channelId q = p_channelId p"
  shows "js_keys (members_of (fst (join_channel sid now p s)) (p_channelId p)) = [sid]
       \<and> members_of (users_delete sid (p_channelId p) (fst (join_channel sid now p s)))
            (p_channelId p) = []
       \<and> js_get (p_channelId p)
            (channels (fst (leave_channel sid q (fst (join_channel sid now p s))))) = None
       \<and> channels (fst (leave_channel sid q (fst (join_channel sid now p s)))) = channels s"
proof -
  let ?c = "p_channelId p"
  let ?s1 = "fst (join_channel sid now p s)"
  let ?m = "\<lparr>m_userId = p_userId p, m_socketId = sid, m_joinedAt = now\<rparr>"
  let ?ch = "(new_channel ?c now)\<lparr>c_users := [(sid, ?m)]\<rparr>"
  have ch1: "channels ?s1 = channels s @ [(?c, ?ch)]"
    using absent by (rule join_fresh)
  have g1: "js_get ?c (channels ?s1) = Some ?ch"
    using absent by (simp add: ch1 js_get_append) (simp add: js_get_def)
  have a: "js_keys (members_of ?s1 ?c) = [sid]"
    by (simp add: members_of_def g1 js_keys_def)
  have ud: "channels (users_delete sid ?c ?s1) = channels s @ [(?c, ?ch\<lparr>c_users := []\<rparr>)]"
    using absent
    by (simp add: channels_users_delete ch1 js_update_append js_update_absent)
       (simp add: js_update_def js_delete_def)
  have g2: "js_get ?c (channels (users_delete sid ?c ?s1)) = Some (?ch\<lparr>c_users := []\<rparr>)"
    using absent by (simp add: ud js_get_append) (simp add: js_get_def)
  have b: "members_of (users_delete sid ?c ?s1) ?c = []"
    by (simp add: members_of_def g2)
  have "channels (delete_if_empty ?c (users_delete sid ?c ?s1)) =
          js_delete ?c (channels (users_delete sid ?c ?s1))"
    by (simp add: channels_delete_if_empty g2)
  also have "\<dots> = channels s"
    using absent by (simp add: ud js_delete_append js_delete_absent) (simp add: js_delete_def)
  finally have d: "channels (fst (leave_channel sid q ?s1)) = channels s"
    by (simp add: channels_leave_channel same g1)
  from a b d absent show ?thesis by simp
qed

theorem join_then_leave_restores_directory_witness:
  "js_keys (members_of (fst (join_channel ''s3'' 3 (in_channel ''B'' ''u3'') lobby)) (JStr ''B'')) = [''s3'']
   \<and> js_get (JStr ''B'')
        (channels (fst (leave_channel ''s3'' (in_channel ''B'' ''x'')
           (fst (join_channel ''s3'' 3 (in_channel ''B'' ''u3'') lobby))))) = None
   \<and> channels (fst (leave_channel ''s3'' (in_channel ''B'' ''x'')
        (fst (join_channel ''s3'' 3 (in_channel ''B'' ''u3'') lobby)))) = channels lobby"
proof -
  have h1: "js_get (p_channelId (in_channel ''B'' ''u3'')) (channels lobby) = None"
    by (simp add: in_channel_def no_payload_def lobby_def js_get_def)
  have h2: "p_channelId (in_channel ''B'' ''x'') = p_channelId (in_channel ''B'' ''u3'')"
    by (simp add: in_channel_def)
  have c: "p_channelId (in_channel ''B'' ''u3'') = JStr ''B''"
    by (simp add: in_channel_def)
  from join_then_leave_restores_directory [OF h1 h2, of "''s3''" 3] h1 show ?thesis
    by (simp add: c)
qed

text \<open>The leave step alone: whatever happened since the join, when the leaving connection
  is the only member of the channel, the channel is absent from the directory as soon as
  the leave handler has finished.\<close>

lemma leave_by_sole_member:
  assumes sole: "js_keys (members_of s (p_channelId q)) = [sid]"
  shows "js_get (p_channelId q) (channels (fst (leave_channel sid q s))) = None"
proof -
  let ?c = "p_channelId q"
  from sole obtain ch where ch: "js_get ?c (channels s) = Some ch"
    by (cases "js_get ?c (channels s)") (simp_all add: members_of_def js_keys_def)
  with sole have "js_keys (c_users ch) = [sid]"
    by (simp add: members_of_def)
  then obtain m where "c_users ch = [(sid, m)]"
    by (cases "c_users ch") (auto simp: js_keys_def)
  then have "js_delete sid (c_users ch) = []"
    by (simp add: js_delete_def)
  then have "channels (delete_if_empty ?c (users_delete sid ?c s)) =
               js_delete ?c (channels (users_delete sid ?c s))"
    by (simp add: channels_delete_if_empty channels_users_delete js_get_update ch)
  then show ?thesis
    by (simp add: channels_leave_channel ch js_get_delete)
qed

lemma lobby_reachable:
  "run lobby_events init =
     (lobby,
      [(''s1'', Connected ''s1'' (JNum 0)), (''s2'', Connected ''s2'' (JNum 0)),
       (''s3'', Connected ''s3'' (JNum 0)), (''s1'', Channel_users []),
       (''s2'', Channel_users [JStr ''u1'']), (''s1'', User_joined (JStr ''u2''))])"
  by code_simp

section \<open>A second join by a member\<close>

lemma channels_join_channel:
  "channels (fst (join_channel sid now p s)) =
     js_update (p_channelId p)
       (\<lambda>ch. ch\<lparr>c_users := js_set sid
          \<lparr>m_userId = p_userId p, m_socketId = sid, m_joinedAt = now\<rparr> (c_users ch)\<rparr>)
       (if js_has (p_channelId p) (channels s) then channels s
        else js_set (p_channelId p) (new_channel (p_channelId p) now) (channels s))"
  by (simp add: join_channel_def Let_def socket_join_def)

lemma members_after_join:
  "members_of (fst (join_channel sid now p s)) c =
     (if c = p_channelId p
      then js_set sid \<lparr>m_userId = p_userId p, m_socketId = sid, m_joinedAt = now\<rparr>
             (members_of s c)
      else members_of s c)"
  by (cases "js_get (p_channelId p) (channels s)")
     (simp_all add: members_of_def channels_join_channel js_get_update js_get_set js_has_def
        new_channel_def)

lemma channel_keys_after_join:
  "js_keys (channels (fst (join_channel sid now p s))) =
     (if js_has (p_channelId p) (channels s) then js_keys (channels s)
      else js_keys (channels s) @ [p_channelId p])"
  by (simp add: channels_join_channel js_keys_update js_keys_set js_has_iff)

text \<open>
  Claim C3, as amended. The handler stores the member with \<open>channel.users.set(socket.id,
  {userId, socketId, joinedAt: new Date()})\<close>, with no test for an entry that is already
  there. When a connection that is already in the channel's member map joins the same
  channel again, the member connection ids (and their order), every other member's record
  and the set of channels are unchanged, but the connection's own membership record is
  replaced: it carries the userId of the new payload and the time of the second join.
\<close>

theorem rejoin_replaces_membership_record:
  assumes "js_has sid (members_of s (p_channelId p))"
  shows "js_keys (members_of (fst (join_channel sid now p s)) (p_channelId p)) =
           js_keys (members_of s (p_channelId p))
       \<and> js_get sid (members_of (fst (join_channel sid now p s)) (p_channelId p)) =
           Some \<lparr>m_userId = p_userId p, m_socketId = sid, m_joinedAt = now\<rparr>
       \<and> (\<forall>k. k \<noteq> sid \<longrightarrow>
             js_get k (members_of (fst (join_channel sid now p s)) (p_channelId p)) =
             js_get k (members_of s (p_channelId p)))
       \<and> js_keys (channels (fst (join_channel sid now p s))) = js_keys (channels s)"
proof -
  have present: "js_has (p_channelId p) (channels s)"
    using assms by (auto simp: members_of_def js_has_def js_get_Nil split: option.splits)
  show ?thesis
    using assms present
    by (simp add: members_after_join js_keys_set js_get_set channel_keys_after_join js_has_iff)
qed

text \<open>In the sample state, connection \<open>s1\<close> (a member of \<open>A\<close> since time 1) joins \<open>A\<close> again
  at time 7 under the same userId: its membership record is no longer the one it had.\<close>

theorem rejoin_changes_record_counterexample:
  "js_get ''s1'' (members_of (fst (join_channel ''s1'' 7 (in_channel ''A'' ''u1'') lobby)) (JStr ''A''))
     \<noteq> js_get ''s1'' (members_of lobby (JStr ''A''))"
  by code_simp

theorem rejoin_replaces_membership_record_witness:
  "js_keys (members_of (fst (join_channel ''s1'' 7 (in_channel ''A'' ''zed'') lobby)) (JStr ''A'')) =
     [''s1'', ''s2'']
   \<and> js_get ''s1'' (members_of (fst (join_channel ''s1'' 7 (in_channel ''A'' ''zed'') lobby)) (JStr ''A'')) =
       Some \<lparr>m_userId = JStr ''zed'', m_socketId = ''s1'', m_joinedAt = 7\<rparr>
   \<and> js_get ''s2'' (members_of (fst (join_channel ''s1'' 7 (in_channel ''A'' ''zed'') lobby)) (JStr ''A'')) =
       Some \<lparr>m_userId = JStr ''u2'', m_socketId = ''s2'', m_joinedAt = 2\<rparr>"
proof -
  have c: "p_channelId (in_channel ''A'' ''zed'') = JStr ''A''" "p_userId (in_channel ''A'' ''zed'') = JStr ''zed''"
    by (simp_all add: in_channel_def)
  have m: "members_of lobby (JStr ''A'') =
             [(''s1'', \<lparr>m_userId = JStr ''u1'', m_socketId = ''s1'', m_joinedAt = 1\<rparr>),
              (''s2'', \<lparr>m_userId = JStr ''u2'', m_socketId = ''s2'', m_joinedAt = 2\<rparr>)]"
    by (simp add: members_of_def lobby_def js_get_def)
  have h: "js_has ''s1'' (members_of lobby (p_channelId (in_channel ''A'' ''zed'')))"
    by (simp add: c m js_has_def js_get_def)
  from rejoin_replaces_membership_record [OF h, of 7] show ?thesis
    by (simp add: c m js_keys_def js_get_def)
qed

section \<open>Rooms and the events of leave and disconnect\<close>

lemma bound_without_pair:
  "map fst (filter (\<lambda>b. b \<noteq> (sid, r) \<and> snd b = r') bs) =
     (if r' = r then filter (\<lambda>k. k \<noteq> sid) (map fst (filter (\<lambda>b. snd b = r') bs))
      else map fst (filter (\<lambda>b. snd b = r') bs))"
  by (induction bs) auto

lemma bound_without_socket:
  "map fst (filter (\<lambda>b. fst b \<noteq> sid \<and> snd b = r) bs) =
     filter (\<lambda>k. k \<noteq> sid) (map fst (filter (\<lambda>b. snd b = r) bs))"
  by (induction bs) auto

lemma room_sockets_socket_leave:
  "room_sockets (socket_leave sid r s) r' =
     (if r' = r then filter (\<lambda>k. k \<noteq> sid) (room_sockets s r') else room_sockets s r')"
  by (simp add: room_sockets_def socket_leave_def bound_without_pair)

lemma room_sockets_transport_close:
  "room_sockets (transport_close sid s) r = filter (\<lambda>k. k \<noteq> sid) (room_sockets s r)"
  by (simp add: room_sockets_def transport_close_def bound_without_socket)

lemma room_sockets_socket_join:
  "room_sockets (socket_join sid r s) r' =
     (if r' = r \<and> sid \<notin> set (room_sockets s r) then room_sockets s r' @ [sid]
      else room_sockets s r')"
  by (force simp: room_sockets_def socket_join_def)

lemma room_sockets_channels_update [simp]:
  "room_sockets (s\<lparr>channels := c\<rparr>) r = room_sockets s r"
  "room_sockets (s\<lparr>users := u\<rparr>) r = room_sockets s r"
  by (simp_all add: room_sockets_def)

lemma socket_to_cong:
  "room_sockets s r = room_sockets s' r \<Longrightarrow> socket_to s sid r e = socket_to s' sid r e"
  by (simp add: socket_to_def)

lemma room_sockets_users_delete [simp]:
  "room_sockets (users_delete sid c s) r = room_sockets s r"
  by (simp add: users_delete_def)

lemma out_leave_channel:
  "snd (leave_channel sid p s) =
     (case js_get (p_channelId p) (channels s) of
        None \<Rightarrow> []
      | Some _ \<Rightarrow> map (\<lambda>k. (k, User_left (p_userId p)))
                  (filter (\<lambda>k. k \<noteq> sid) (room_sockets s (p_channelId p))))"
  by (simp add: leave_channel_def Let_def socket_to_def room_sockets_socket_leave
      split: option.split)

lemma out_disconnect:
  "snd (disconnect sid s) =
     (case js_get sid (users s) of
        None \<Rightarrow> []
      | Some user \<Rightarrow>
          if truthy (u_currentChannel user) \<and> js_has (u_currentChannel user) (channels s)
          then map (\<lambda>k. (k, User_left (u_userId user)))
                 (filter (\<lambda>k. k \<noteq> sid) (room_sockets s (u_currentChannel user)))
          else [])"
proof -
  have u: "users (transport_close sid s) = users s" and c: "channels (transport_close sid s) = channels s"
    by (simp_all add: transport_close_def)
  show ?thesis
    by (simp add: disconnect_def on_disconnect_def Let_def u c socket_to_def js_has_def
        room_sockets_transport_close split: option.split)
qed

text \<open>
  Claim C10. Where the named channel is in the directory, every event that \<open>leave-channel\<close>
  emits is a \<open>user-left\<close> carrying the userId of the payload, whatever identity the registry
  holds for the connection; it goes to the connections bound to the channel's room other
  than the sender. Where \<open>disconnect\<close> emits at all (the connection is registered, its
  \<open>currentChannel\<close> is truthy and names a channel of the directory), every event is a
  \<open>user-left\<close> carrying the userId stored in the registry. Leave is stated for an arbitrary
  payload, so the userId it announces is the caller's choice.
\<close>

theorem user_left_names_payload_on_leave_registry_on_disconnect:
  "(js_has (p_channelId p) (channels s) \<longrightarrow>
      snd (leave_channel sid p s) =
        map (\<lambda>k. (k, User_left (p_userId p)))
          (filter (\<lambda>k. k \<noteq> sid) (room_sockets s (p_channelId p))))
   \<and> (js_get sid (users s) = Some u \<and> truthy (u_currentChannel u)
        \<and> js_has (u_currentChannel u) (channels s) \<longrightarrow>
      snd (disconnect sid s) =
        map (\<lambda>k. (k, User_left (u_userId u)))
          (filter (\<lambda>k. k \<noteq> sid) (room_sockets s (u_currentChannel u))))"
  by (auto simp: out_leave_channel out_disconnect js_has_def)

text \<open>In the sample state, connection \<open>s2\<close> is registered as \<open>u2\<close>. Its leave with the
  userId \<open>mallory\<close> announces \<open>mallory\<close>; its disconnect announces \<open>u2\<close>.\<close>

theorem user_left_names_payload_on_leave_registry_on_disconnect_witness:
  "snd (leave_channel ''s2'' (in_channel ''A'' ''mallory'') lobby) = [(''s1'', User_left (JStr ''mallory''))]
   \<and> snd (disconnect ''s2'' lobby) = [(''s1'', User_left (JStr ''u2''))]"
proof -
  have c: "p_channelId (in_channel ''A'' ''mallory'') = JStr ''A''"
          "p_userId (in_channel ''A'' ''mallory'') = JStr ''mallory''"
    by (simp_all add: in_channel_def)
  have h1: "js_has (JStr ''A'') (channels lobby)"
    by (simp add: lobby_def js_has_def js_get_def)
  have h2: "js_get ''s2'' (users lobby) =
              Some \<lparr>u_socketId = ''s2'', u_connectedAt = 0,
                    u_currentChannel = JStr ''A'', u_userId = JStr ''u2''\<rparr>"
    by (simp add: lobby_def js_get_def)
  have r: "room_sockets lobby (JStr ''A'') = [''s1'', ''s2'']"
    by (simp add: lobby_def room_sockets_def)
  from user_left_names_payload_on_leave_registry_on_disconnect
         [of "in_channel ''A'' ''mallory''" lobby "''s2''"
             "\<lparr>u_socketId = ''s2'', u_connectedAt = 0,
               u_currentChannel = JStr ''A'', u_userId = JStr ''u2''\<rparr>"]
  show ?thesis
    by (simp add: c h1 h2 r)
qed

section \<open>The representation invariant\<close>

text \<open>Every handler and the sweep keep the representation invariant, so it holds in every
  state that a run reaches from the initial state.\<close>

lemma in_js_update:
  "(k, v) \<in> set (js_update c f m) \<longleftrightarrow>
     (\<exists>v0. (k, v0) \<in> set m \<and> v = (if k = c then f v0 else v0))"
  by (induction m) (auto simp: js_update_def)

lemma in_js_set: "(k', v') \<in> set (js_set k v m) \<Longrightarrow> (k', v') \<in> set m \<or> (k' = k \<and> v' = v)"
  by (induction m) (auto split: if_splits)

lemma in_js_delete: "(k', v) \<in> set (js_delete k m) \<longleftrightarrow> (k', v) \<in> set m \<and> k' \<noteq> k"
  by (auto simp: js_delete_def)

lemma js_set_not_Nil: "js_set k v m \<noteq> []"
  by (cases m) (auto split: if_splits)

lemma distinct_js_set: "distinct (js_keys m) \<Longrightarrow> distinct (js_keys (js_set k v m))"
  by (simp add: js_keys_set)

lemma distinct_js_delete: "distinct (js_keys m) \<Longrightarrow> distinct (js_keys (js_delete k m))"
  by (simp add: js_keys_delete)

lemma js_get_unique: "distinct (js_keys m) \<Longrightarrow> (k, v) \<in> set m \<Longrightarrow> js_get k m = Some v"
  by (simp add: js_get_def js_keys_def)

lemma good_channel_new_member:
  assumes "ch = new_channel c now \<or> good_channel ch"
  shows "good_channel (ch\<lparr>c_users := js_set sid
           \<lparr>m_userId = uid, m_socketId = sid, m_joinedAt = now'\<rparr> (c_users ch)\<rparr>)"
proof -
  let ?m = "\<lparr>m_userId = uid, m_socketId = sid, m_joinedAt = now'\<rparr>"
  from assms have d: "distinct (js_keys (c_users ch))"
    by (auto simp: good_channel_def new_channel_def js_keys_def)
  from assms have k: "\<forall>(k, m) \<in> set (c_users ch). m_socketId m = k"
    by (auto simp: good_channel_def new_channel_def list_all_iff)
  have "\<forall>(k, m) \<in> set (js_set sid ?m (c_users ch)). m_socketId m = k"
    using k by (auto dest!: in_js_set)
  with d show ?thesis
    by (simp add: good_channel_def js_set_not_Nil distinct_js_set list_all_iff)
qed

lemma good_channels_join:
  assumes "list_all (\<lambda>(c, ch). good_channel ch) (channels s)"
  shows "list_all (\<lambda>(c, ch). good_channel ch) (channels (fst (join_channel sid now p s)))"
proof -
  have "good_channel ch" if "(c, ch) \<in> set (channels (fst (join_channel sid now p s)))" for c ch
  proof -
    from that obtain ch0 where
      ch0: "(c, ch0) \<in> set (if js_has (p_channelId p) (channels s) then channels s
                             else js_set (p_channelId p) (new_channel (p_channelId p) now) (channels s))"
      and ch: "ch = (if c = p_channelId p
                     then ch0\<lparr>c_users := js_set sid
                            \<lparr>m_userId = p_userId p, m_socketId = sid, m_joinedAt = now\<rparr>
                            (c_users ch0)\<rparr>
                     else ch0)"
      unfolding channels_join_channel in_js_update by blast
    from ch0 have "(c, ch0) \<in> set (channels s) \<or> (c = p_channelId p \<and> ch0 = new_channel c now)"
      by (auto split: if_splits dest: in_js_set)
    then have "ch0 = new_channel (p_channelId p) now \<and> c = p_channelId p \<or> good_channel ch0"
      using assms by (auto simp: list_all_iff)
    then show ?thesis
      unfolding ch using good_channel_new_member [of ch0 "p_channelId p" now sid "p_userId p" now]
      by auto
  qed
  then show ?thesis
    by (auto simp: list_all_iff)
qed

lemma well_formed_join_channel: "well_formed s \<Longrightarrow> well_formed (fst (join_channel sid now p s))"
proof -
  assume w: "well_formed s"
  have u: "users (fst (join_channel sid now p s)) =
             js_update sid (\<lambda>u. u\<lparr>u_currentChannel := p_channelId p, u_userId := p_userId p\<rparr>)
               (users s)"
    and so: "sockets (fst (join_channel sid now p s)) = sockets s"
    and r: "rooms (fst (join_channel sid now p s)) =
             (if (sid, p_channelId p) \<in> set (rooms s) then rooms s
              else rooms s @ [(sid, p_channelId p)])"
    by (simp_all add: join_channel_def Let_def socket_join_def)
  from w show ?thesis
    unfolding well_formed_def
    by (simp add: good_channels_join channel_keys_after_join js_has_iff u so r js_keys_update)
qed


lemma good_channel_remove_member:
  "good_channel ch \<Longrightarrow> js_delete sid (c_users ch) \<noteq> [] \<Longrightarrow>
   good_channel (ch\<lparr>c_users := js_delete sid (c_users ch)\<rparr>)"
  by (auto simp: good_channel_def distinct_js_delete list_all_iff in_js_delete)

lemma good_channels_remove:
  assumes d: "distinct (js_keys (channels s))"
      and g: "list_all (\<lambda>(c, ch). good_channel ch) (channels s)"
  shows "distinct (js_keys (channels (delete_if_empty c (users_delete sid c s))))
       \<and> list_all (\<lambda>(c, ch). good_channel ch)
           (channels (delete_if_empty c (users_delete sid c s)))"
proof -
  let ?f = "\<lambda>ch. ch\<lparr>c_users := js_delete sid (c_users ch)\<rparr>"
  let ?chs1 = "js_update c ?f (channels s)"
  have d1: "distinct (js_keys ?chs1)"
    using d by (simp add: js_keys_update)
  have other: "good_channel v" if "(k, v) \<in> set ?chs1" "k \<noteq> c" for k v
    using that g by (auto simp: in_js_update list_all_iff)
  show ?thesis
  proof (cases "js_get c ?chs1")
    case None
    then have "k \<noteq> c" if "(k, v) \<in> set ?chs1" for k v
      using that by (force simp: js_get_None_iff js_keys_def)
    with other have "list_all (\<lambda>(c, ch). good_channel ch) ?chs1"
      by (auto simp: list_all_iff)
    with d1 None show ?thesis
      by (simp add: channels_delete_if_empty channels_users_delete)
  next
    case (Some ch)
    show ?thesis
    proof (cases "c_users ch = []")
      case True
      have "list_all (\<lambda>(c, ch). good_channel ch) (js_delete c ?chs1)"
        using other by (auto simp: list_all_iff in_js_delete)
      with d1 Some True show ?thesis
        by (simp add: channels_delete_if_empty channels_users_delete distinct_js_delete)
    next
      case False
      have "good_channel v" if kv: "(k, v) \<in> set ?chs1" for k v
      proof (cases "k = c")
        case True
        with kv d1 Some have "v = ch"
          by (auto dest: js_get_unique)
        moreover from kv True obtain v0 where "(c, v0) \<in> set (channels s)" "v = ?f v0"
          by (auto simp: in_js_update)
        moreover from this g have "good_channel v0"
          by (auto simp: list_all_iff)
        ultimately show ?thesis
          using False good_channel_remove_member [of v0 sid] by auto
      next
        case False
        with kv show ?thesis by (rule other)
      qed
      then have "list_all (\<lambda>(c, ch). good_channel ch) ?chs1"
        by (auto simp: list_all_iff)
      with d1 Some False show ?thesis
        by (simp add: channels_delete_if_empty channels_users_delete)
    qed
  qed
qed

lemma well_formed_connection: "well_formed s \<Longrightarrow> well_formed (fst (connection sid now s))"
  by (simp add: well_formed_def connection_def on_connection_def transport_open_def
      socket_join_def distinct_js_set)

lemma well_formed_leave_channel:
  assumes w: "well_formed s"
  shows "well_formed (fst (leave_channel sid p s))"
proof -
  let ?c = "p_channelId p"
  let ?s' = "fst (leave_channel sid p s)"
  have u: "users ?s' = js_update sid (\<lambda>u. u\<lparr>u_currentChannel := Null\<rparr>) (users s)"
    and so: "sockets ?s' = sockets s"
    and r: "rooms ?s' = (case js_get ?c (channels s) of
                           None \<Rightarrow> rooms s
                         | Some _ \<Rightarrow> filter (\<lambda>b. b \<noteq> (sid, ?c)) (rooms s))"
    by (simp_all add: leave_channel_def Let_def delete_if_empty_def users_delete_def
        socket_leave_def split: option.split)
  from w good_channels_remove [of s ?c sid]
  have "distinct (js_keys (channels ?s')) \<and> list_all (\<lambda>(c, ch). good_channel ch) (channels ?s')"
    by (simp add: channels_leave_channel well_formed_def split: option.split)
  with w show ?thesis
    by (simp add: well_formed_def u so r js_keys_update split: option.split)
qed

lemma well_formed_disconnect:
  assumes w: "well_formed s"
  shows "well_formed (fst (disconnect sid s))"
proof -
  let ?t = "transport_close sid s"
  let ?s' = "fst (disconnect sid s)"
  have t: "users ?t = users s" "channels ?t = channels s"
    by (simp_all add: transport_close_def)
  have u: "users ?s' = js_delete sid (users s)"
    and so: "sockets ?s' = removeAll sid (sockets s)"
    and r: "rooms ?s' = filter (\<lambda>b. fst b \<noteq> sid) (rooms s)"
    by (simp_all add: disconnect_def on_disconnect_def Let_def delete_if_empty_def
        users_delete_def transport_close_def split: option.split)
  have c: "channels ?s' = channels s \<or>
           (\<exists>c. channels ?s' = channels (delete_if_empty c (users_delete sid c ?t)))"
    by (auto simp: disconnect_def on_disconnect_def Let_def t split: option.split)
  from w have wt: "distinct (js_keys (channels ?t))"
                  "list_all (\<lambda>(c, ch). good_channel ch) (channels ?t)"
    by (simp_all add: well_formed_def t)
  from c w good_channels_remove [OF wt]
  have "distinct (js_keys (channels ?s')) \<and> list_all (\<lambda>(c, ch). good_channel ch) (channels ?s')"
    by (auto simp: well_formed_def)
  with w show ?thesis
    by (simp add: well_formed_def u so r distinct_js_delete distinct_removeAll)
qed

lemma well_formed_init: "well_formed init"
  by (simp add: well_formed_def init_def js_keys_def)

lemma other_events:
  "fst (transmission_start_A sid now p s) = s"
  "fst (transmission_start_B sid now p s) = incrementMessageCount (p_channelId p) s"
  "fst (transmission_end sid now p s) = s"
  "fst (audio_data sid now p s) = incrementMessageCount (p_channelId p) s"
  "fst (webrtc_offer_A sid p s) = s"
  "fst (webrtc_answer_A sid p s) = s"
  "fst (webrtc_ice_candidate_A sid p s) = s"
  "fst (webrtc_offer_B sid p s) = s"
  "fst (webrtc_answer_B sid p s) = s"
  "fst (ice_candidate_B sid p s) = s"
  by (simp_all add: transmission_start_A_def transmission_start_B_def transmission_end_def
      audio_data_def webrtc_offer_A_def webrtc_answer_A_def webrtc_ice_candidate_A_def
      webrtc_offer_B_def webrtc_answer_B_def ice_candidate_B_def)

lemma well_formed_incrementMessageCount:
  assumes "well_formed s"
  shows "well_formed (incrementMessageCount c s)"
proof -
  have same: "good_channel (ch\<lparr>c_messageCount := n\<rparr>) = good_channel ch" for ch n
    by (simp add: good_channel_def)
  have "good_channel v" if "(k, v) \<in> set (channels (incrementMessageCount c s))" for k v
  proof -
    from that obtain v0 where "(k, v0) \<in> set (channels s)"
      and v: "v = (if k = c then v0\<lparr>c_messageCount := c_messageCount v0 + 1\<rparr> else v0)"
      by (auto simp: incrementMessageCount_def in_js_update)
    with assms have "good_channel v0"
      by (auto simp: well_formed_def list_all_iff)
    then show ?thesis
      unfolding v by (simp add: same)
  qed
  then have "list_all (\<lambda>(c, ch). good_channel ch) (channels (incrementMessageCount c s))"
    by (auto simp: list_all_iff)
  with assms show ?thesis
    by (simp add: well_formed_def) (simp add: incrementMessageCount_def js_keys_update)
qed

lemma sweep_nothing:
  "list_all (\<lambda>(c, ch). c_users ch \<noteq> []) xs \<Longrightarrow>
   foldl (\<lambda>m (channelId, ch). if js_size (c_users ch) = 0 then js_delete channelId m else m) m xs
     = m"
  by (induction xs arbitrary: m) (auto simp: js_size_def)

lemma sweep_well_formed: "well_formed s \<Longrightarrow> sweep s = s"
proof -
  assume "well_formed s"
  then have "list_all (\<lambda>(c, ch). c_users ch \<noteq> []) (channels s)"
    by (auto simp: well_formed_def good_channel_def list_all_iff)
  then show ?thesis
    by (simp add: sweep_def sweep_nothing)
qed

lemma well_formed_handle: "well_formed s \<Longrightarrow> well_formed (fst (handle e s))"
proof -
  assume w: "well_formed s"
  obtain sid now ev where e: "e = (sid, now, ev)"
    by (cases e) auto
  from w show ?thesis
    unfolding e
    by (cases ev)
       (simp_all add: well_formed_connection well_formed_join_channel well_formed_leave_channel
          well_formed_disconnect other_events well_formed_incrementMessageCount
          sweep_well_formed)
qed

lemma well_formed_run: "well_formed s \<Longrightarrow> well_formed (fst (run es s))"
proof (induction es arbitrary: s)
  case Nil
  then show ?case by simp
next
  case (Cons e es)
  from Cons.prems have "well_formed (fst (handle e s))"
    by (rule well_formed_handle)
  then have "well_formed (fst (run es (fst (handle e s))))"
    by (rule Cons.IH)
  then show ?case
    by (simp add: case_prod_unfold)
qed

lemma well_formed_members:
  assumes "well_formed s"
  shows "distinct (js_keys (members_of s c))
       \<and> (\<forall>(k, m) \<in> set (members_of s c). m_socketId m = k)
       \<and> (js_has c (channels s) \<longrightarrow> members_of s c \<noteq> [])"
proof (cases "js_get c (channels s)")
  case None
  then show ?thesis
    by (simp add: members_of_def js_keys_def js_has_def)
next
  case (Some ch)
  with assms have "good_channel ch"
    by (auto simp: well_formed_def list_all_iff js_get_def dest!: map_of_SomeD)
  with Some show ?thesis
    by (simp add: members_of_def good_channel_def list_all_iff)
qed

lemma distinct_bound: "distinct bs \<Longrightarrow> distinct (map fst (filter (\<lambda>b. snd b = r) bs))"
  by (induction bs) (auto simp: image_iff)

lemma well_formed_room: "well_formed s \<Longrightarrow> distinct (room_sockets s r)"
  by (simp add: well_formed_def room_sockets_def distinct_bound)

section \<open>Bindings of connections to rooms\<close>

text \<open>The handlers bind a connection to a room when they add it to the channel's members
  and unbind it when they remove it; the transport binds a connection to the room of its
  own id when it opens, and unbinds a connection that closes from every room. So in every
  state reached from the initial state by events that the transport can deliver, the
  representation invariant holds and the bindings agree with the directory for live
  connections, the rooms of the connections' own ids apart. (A member record can outlive
  its connection; see the section on disconnect.)\<close>

lemma members_of_entry:
  "distinct (js_keys (channels s)) \<Longrightarrow> (c, ch) \<in> set (channels s) \<Longrightarrow> members_of s c = c_users ch"
  by (simp add: members_of_def js_get_unique)

lemma members_of_nonempty:
  assumes "k \<in> set (js_keys (members_of s c))"
  shows "\<exists>ch. (c, ch) \<in> set (channels s) \<and> members_of s c = c_users ch"
proof (cases "js_get c (channels s)")
  case None
  with assms show ?thesis
    by (simp add: members_of_def js_keys_def)
next
  case (Some ch)
  then have "(c, ch) \<in> set (channels s)"
    by (simp add: js_get_def map_of_SomeD)
  with Some show ?thesis
    by (auto simp: members_of_def)
qed

lemma bindings_ok_bound:
  assumes "bindings_ok s" and "(k, c) \<in> set (rooms s)"
  shows "k \<in> set (sockets s) \<and> (k \<in> set (js_keys (members_of s c)) \<or> c = JStr k)"
proof -
  from assms(1) have "\<forall>b \<in> set (rooms s). case b of (k, c) \<Rightarrow>
      k \<in> set (sockets s) \<and> (js_has k (members_of s c) \<or> c = JStr k)"
    by (simp add: bindings_ok_def list_all_iff)
  with assms(2) have "k \<in> set (sockets s) \<and> (js_has k (members_of s c) \<or> c = JStr k)"
    by blast
  then show ?thesis
    by (simp add: js_has_iff)
qed

lemma bindings_ok_member:
  assumes "bindings_ok s" and "k \<in> set (js_keys (members_of s c))" and "k \<in> set (sockets s)"
  shows "(k, c) \<in> set (rooms s)"
proof -
  from members_of_nonempty [OF assms(2)] obtain ch
    where ch: "(c, ch) \<in> set (channels s)" and m: "members_of s c = c_users ch" by blast
  from assms(1) have "\<forall>e \<in> set (channels s). case e of (c, ch) \<Rightarrow>
      \<forall>k \<in> set (js_keys (c_users ch)). k \<in> set (sockets s) \<longrightarrow> (k, c) \<in> set (rooms s)"
    by (simp add: bindings_ok_def list_all_iff)
  with ch have "\<forall>k \<in> set (js_keys (c_users ch)). k \<in> set (sockets s) \<longrightarrow> (k, c) \<in> set (rooms s)"
    by blast
  with assms(2,3) m show ?thesis
    by simp
qed

lemma bindings_okI:
  assumes d: "distinct (js_keys (channels s))"
      and r1: "\<And>k c. (k, c) \<in> set (rooms s) \<Longrightarrow>
                 k \<in> set (sockets s) \<and> (k \<in> set (js_keys (members_of s c)) \<or> c = JStr k)"
      and r2: "\<And>k c. k \<in> set (js_keys (members_of s c)) \<Longrightarrow> k \<in> set (sockets s) \<Longrightarrow>
                 (k, c) \<in> set (rooms s)"
  shows "bindings_ok s"
proof -
  have a: "list_all (\<lambda>(k, c). k \<in> set (sockets s) \<and> (js_has k (members_of s c) \<or> c = JStr k))
             (rooms s)"
    unfolding list_all_iff using r1 by (auto simp: js_has_iff)
  have "(k, c) \<in> set (rooms s)"
    if "(c, ch) \<in> set (channels s)" "k \<in> set (js_keys (c_users ch))" "k \<in> set (sockets s)"
    for c ch k
  proof -
    from d that(1) have "members_of s c = c_users ch"
      by (rule members_of_entry)
    with that(2,3) show ?thesis
      by (simp add: r2)
  qed
  then have b: "list_all (\<lambda>(c, ch).
           list_all (\<lambda>k. k \<in> set (sockets s) \<longrightarrow> (k, c) \<in> set (rooms s)) (js_keys (c_users ch)))
           (channels s)"
    unfolding list_all_iff by blast
  from a b show ?thesis
    by (simp add: bindings_ok_def)
qed


lemma keys_js_set: "set (js_keys (js_set k v m)) = insert k (set (js_keys m))"
  by (auto simp: js_keys_set)

lemma keys_js_delete: "set (js_keys (js_delete k m)) = set (js_keys m) - {k}"
  by (auto simp: js_keys_delete)

lemma members_of_channels: "channels s' = channels s \<Longrightarrow> members_of s' c = members_of s c"
  by (simp add: members_of_def)

lemma members_remove:
  "members_of (delete_if_empty c0 (users_delete sid c0 s)) c =
     (if c = c0 then js_delete sid (members_of s c) else members_of s c)"
proof (cases "js_get c0 (channels s)")
  case None
  then show ?thesis
    by (simp add: members_of_def channels_delete_if_empty channels_users_delete js_get_update
        js_delete_def)
next
  case (Some ch0)
  then show ?thesis
    by (simp add: members_of_def channels_delete_if_empty channels_users_delete js_get_update
        js_get_delete)
qed

lemma members_after_leave:
  "members_of (fst (leave_channel sid p s)) c =
     (if c = p_channelId p then js_delete sid (members_of s c) else members_of s c)"
proof (cases "js_get (p_channelId p) (channels s)")
  case None
  then have "channels (fst (leave_channel sid p s)) = channels s"
    by (simp add: channels_leave_channel)
  then have "members_of (fst (leave_channel sid p s)) c = members_of s c"
    by (rule members_of_channels)
  with None show ?thesis
    by (simp add: members_of_def js_delete_def)
next
  case (Some ch0)
  then have "channels (fst (leave_channel sid p s)) =
               channels (delete_if_empty (p_channelId p) (users_delete sid (p_channelId p) s))"
    by (simp add: channels_leave_channel)
  then have "members_of (fst (leave_channel sid p s)) c =
               members_of (delete_if_empty (p_channelId p) (users_delete sid (p_channelId p) s)) c"
    by (rule members_of_channels)
  then show ?thesis
    by (simp add: members_remove)
qed

lemma members_after_disconnect:
  "members_of (fst (disconnect sid s)) c = members_of s c
   \<or> members_of (fst (disconnect sid s)) c = js_delete sid (members_of s c)"
proof -
  let ?t = "transport_close sid s"
  have t: "channels ?t = channels s"
    by (simp add: transport_close_def)
  have "channels (fst (disconnect sid s)) = channels ?t \<or>
        (\<exists>c0. channels (fst (disconnect sid s)) =
                channels (delete_if_empty c0 (users_delete sid c0 ?t)))"
    by (auto simp: disconnect_def on_disconnect_def Let_def split: option.split)
  then have "members_of (fst (disconnect sid s)) c = members_of ?t c \<or>
        (\<exists>c0. members_of (fst (disconnect sid s)) c =
                members_of (delete_if_empty c0 (users_delete sid c0 ?t)) c)"
    by (auto dest: members_of_channels)
  moreover have "members_of ?t c = members_of s c"
    using t by (rule members_of_channels)
  ultimately show ?thesis
    by (auto simp: members_remove)
qed

lemma transport_after_join:
  "sockets (fst (join_channel sid now p s)) = sockets s"
  "set (rooms (fst (join_channel sid now p s))) = insert (sid, p_channelId p) (set (rooms s))"
  by (auto simp: join_channel_def Let_def socket_join_def)

lemma transport_after_leave:
  "sockets (fst (leave_channel sid p s)) = sockets s"
  "set (rooms (fst (leave_channel sid p s))) \<subseteq> set (rooms s)"
  "set (rooms s) - {(sid, p_channelId p)} \<subseteq> set (rooms (fst (leave_channel sid p s)))"
  "js_has (p_channelId p) (channels s) \<Longrightarrow> (sid, p_channelId p) \<notin> set (rooms (fst (leave_channel sid p s)))"
  by (auto simp: leave_channel_def Let_def socket_leave_def delete_if_empty_def users_delete_def
      js_has_def split: option.splits)

lemma transport_after_disconnect:
  "set (sockets (fst (disconnect sid s))) = set (sockets s) - {sid}"
  "set (rooms (fst (disconnect sid s))) = {b \<in> set (rooms s). fst b \<noteq> sid}"
  by (auto simp: disconnect_def on_disconnect_def Let_def delete_if_empty_def users_delete_def
      transport_close_def split: option.splits)

lemma transport_after_connection:
  "set (sockets (fst (connection sid now s))) = insert sid (set (sockets s))"
  "set (rooms (fst (connection sid now s))) = insert (sid, JStr sid) (set (rooms s))"
  "channels (fst (connection sid now s)) = channels s"
  by (auto simp: connection_def on_connection_def transport_open_def socket_join_def)


lemma bindings_connection:
  assumes w: "well_formed s" and b: "bindings_ok s" and f: "fresh sid s"
  shows "bindings_ok (fst (connection sid now s))"
proof (rule bindings_okI)
  let ?s' = "fst (connection sid now s)"
  have m: "members_of ?s' c = members_of s c" for c
    by (rule members_of_channels) (simp add: transport_after_connection)
  show "distinct (js_keys (channels ?s'))"
    using w by (simp add: transport_after_connection well_formed_def)
  show "k \<in> set (sockets ?s') \<and> (k \<in> set (js_keys (members_of ?s' c)) \<or> c = JStr k)"
    if "(k, c) \<in> set (rooms ?s')" for k c
    using that bindings_ok_bound [OF b, of k c] by (auto simp: transport_after_connection m)
  show "(k, c) \<in> set (rooms ?s')"
    if k: "k \<in> set (js_keys (members_of ?s' c))" and l: "k \<in> set (sockets ?s')" for k c
  proof -
    from k have k': "k \<in> set (js_keys (members_of s c))"
      by (simp add: m)
    from members_of_nonempty [OF k'] obtain ch
      where "(c, ch) \<in> set (channels s)" "members_of s c = c_users ch" by blast
    with f k' have "k \<noteq> sid"
      by (auto simp: fresh_def list_all_iff)
    with l have "k \<in> set (sockets s)"
      by (simp add: transport_after_connection)
    with b k' have "(k, c) \<in> set (rooms s)"
      by (rule bindings_ok_member)
    then show ?thesis
      by (simp add: transport_after_connection)
  qed
qed

lemma bindings_join_channel:
  assumes w: "well_formed s" and b: "bindings_ok s" and l: "sid \<in> set (sockets s)"
  shows "bindings_ok (fst (join_channel sid now p s))"
proof (rule bindings_okI)
  let ?s' = "fst (join_channel sid now p s)"
  have keys: "set (js_keys (members_of ?s' c)) =
                (if c = p_channelId p then insert sid (set (js_keys (members_of s c)))
                 else set (js_keys (members_of s c)))" for c
    by (simp add: members_after_join keys_js_set)
  from w have "well_formed ?s'"
    by (rule well_formed_join_channel)
  then show "distinct (js_keys (channels ?s'))"
    by (simp add: well_formed_def)
  show "k \<in> set (sockets ?s') \<and> (k \<in> set (js_keys (members_of ?s' c)) \<or> c = JStr k)"
    if "(k, c) \<in> set (rooms ?s')" for k c
    using that l bindings_ok_bound [OF b, of k c] by (auto simp: transport_after_join keys)
  show "(k, c) \<in> set (rooms ?s')"
    if "k \<in> set (js_keys (members_of ?s' c))" and "k \<in> set (sockets ?s')" for k c
    using that bindings_ok_member [OF b, of k c]
    by (auto simp: transport_after_join keys split: if_splits)
qed

lemma bindings_leave_channel:
  assumes w: "well_formed s" and b: "bindings_ok s"
  shows "bindings_ok (fst (leave_channel sid p s))"
proof (rule bindings_okI)
  let ?s' = "fst (leave_channel sid p s)"
  let ?c0 = "p_channelId p"
  have keys: "set (js_keys (members_of ?s' c)) =
                (if c = ?c0 then set (js_keys (members_of s c)) - {sid}
                 else set (js_keys (members_of s c)))" for c
    by (simp add: members_after_leave keys_js_delete)
  from w have "well_formed ?s'"
    by (rule well_formed_leave_channel)
  then show "distinct (js_keys (channels ?s'))"
    by (simp add: well_formed_def)
  show "k \<in> set (sockets ?s') \<and> (k \<in> set (js_keys (members_of ?s' c)) \<or> c = JStr k)"
    if r: "(k, c) \<in> set (rooms ?s')" for k c
  proof -
    from r transport_after_leave(2) [of sid p s] have r0: "(k, c) \<in> set (rooms s)"
      by blast
    from bindings_ok_bound [OF b r0]
    have live: "k \<in> set (sockets s)"
      and mem: "k \<in> set (js_keys (members_of s c)) \<or> c = JStr k"
      by simp_all
    have "\<not> (c = ?c0 \<and> k = sid)" if mem': "k \<in> set (js_keys (members_of s c))"
    proof
      assume e: "c = ?c0 \<and> k = sid"
      with members_of_nonempty [OF mem'] obtain ch where "(?c0, ch) \<in> set (channels s)"
        by auto
      then have "js_has ?c0 (channels s)"
        by (force simp: js_has_iff js_keys_def)
      from transport_after_leave(4) [OF this, of sid] r e show False
        by simp
    qed
    with live mem show ?thesis
      by (auto simp: transport_after_leave(1) keys)
  qed
  show "(k, c) \<in> set (rooms ?s')"
    if k: "k \<in> set (js_keys (members_of ?s' c))" and l: "k \<in> set (sockets ?s')" for k c
  proof -
    from k have mem: "k \<in> set (js_keys (members_of s c))" and ne: "(k, c) \<noteq> (sid, ?c0)"
      by (auto simp: keys split: if_splits)
    from l have "k \<in> set (sockets s)"
      by (simp add: transport_after_leave(1))
    with b mem have "(k, c) \<in> set (rooms s)"
      by (rule bindings_ok_member)
    with ne transport_after_leave(3) [of s sid p] show ?thesis
      by blast
  qed
qed

lemma bindings_disconnect:
  assumes w: "well_formed s" and b: "bindings_ok s"
  shows "bindings_ok (fst (disconnect sid s))"
proof (rule bindings_okI)
  let ?s' = "fst (disconnect sid s)"
  have keys: "set (js_keys (members_of s c)) - {sid} \<subseteq> set (js_keys (members_of ?s' c))"
             "set (js_keys (members_of ?s' c)) \<subseteq> set (js_keys (members_of s c))" for c
    using members_after_disconnect [of sid s c] by (auto simp: keys_js_delete)
  from w have "well_formed ?s'"
    by (rule well_formed_disconnect)
  then show "distinct (js_keys (channels ?s'))"
    by (simp add: well_formed_def)
  show "k \<in> set (sockets ?s') \<and> (k \<in> set (js_keys (members_of ?s' c)) \<or> c = JStr k)"
    if r: "(k, c) \<in> set (rooms ?s')" for k c
  proof -
    from r have r0: "(k, c) \<in> set (rooms s)" and ne: "k \<noteq> sid"
      by (auto simp: transport_after_disconnect)
    from bindings_ok_bound [OF b r0] ne keys(1) [of c] show ?thesis
      by (auto simp: transport_after_disconnect)
  qed
  show "(k, c) \<in> set (rooms ?s')"
    if k: "k \<in> set (js_keys (members_of ?s' c))" and l: "k \<in> set (sockets ?s')" for k c
  proof -
    from k keys(2) [of c] have mem: "k \<in> set (js_keys (members_of s c))"
      by blast
    from l have live: "k \<in> set (sockets s)" and ne: "k \<noteq> sid"
      by (auto simp: transport_after_disconnect)
    from b mem live have "(k, c) \<in> set (rooms s)"
      by (rule bindings_ok_member)
    with ne show ?thesis
      by (simp add: transport_after_disconnect)
  qed
qed

lemma bindings_incrementMessageCount:
  assumes w: "well_formed s" and b: "bindings_ok s"
  shows "bindings_ok (incrementMessageCount c0 s)"
proof (rule bindings_okI)
  let ?s' = "incrementMessageCount c0 s"
  have m: "members_of ?s' c = members_of s c" for c
    by (simp add: members_of_def incrementMessageCount_def js_get_update split: option.split)
  have t: "sockets ?s' = sockets s" "rooms ?s' = rooms s"
    by (simp_all add: incrementMessageCount_def)
  from w have "well_formed ?s'"
    by (rule well_formed_incrementMessageCount)
  then show "distinct (js_keys (channels ?s'))"
    by (simp add: well_formed_def)
  show "k \<in> set (sockets ?s') \<and> (k \<in> set (js_keys (members_of ?s' c)) \<or> c = JStr k)"
    if "(k, c) \<in> set (rooms ?s')" for k c
    using that bindings_ok_bound [OF b, of k c] by (simp add: m t)
  show "(k, c) \<in> set (rooms ?s')"
    if "k \<in> set (js_keys (members_of ?s' c))" and "k \<in> set (sockets ?s')" for k c
    using that bindings_ok_member [OF b, of k c] by (simp add: m t)
qed

lemma bindings_handle:
  assumes w: "well_formed s" and b: "bindings_ok s"
      and g: "if ev = Connect then fresh sid s else ev = Sweep \<or> sid \<in> set (sockets s)"
  shows "bindings_ok (fst (handle (sid, now, ev) s))"
  using assms
  by (cases ev)
     (simp_all add: bindings_connection bindings_join_channel bindings_leave_channel
        bindings_disconnect other_events bindings_incrementMessageCount sweep_well_formed)

lemma invariants_of_runs:
  assumes "well_formed s" and "bindings_ok s" and "delivered es s"
  shows "well_formed (fst (run es s)) \<and> bindings_ok (fst (run es s))"
  using assms
proof (induction es arbitrary: s)
  case Nil
  then show ?case by simp
next
  case (Cons e es)
  obtain sid now ev where e: "e = (sid, now, ev)"
    by (cases e) auto
  let ?s' = "fst (handle e s)"
  from Cons.prems(1) have w': "well_formed ?s'"
    by (rule well_formed_handle)
  from Cons.prems have b': "bindings_ok ?s'"
    unfolding e by (intro bindings_handle) simp_all
  from Cons.prems(3) have d': "delivered es ?s'"
    by (simp add: e)
  from Cons.IH [OF w' b' d'] show ?case
    by (simp add: case_prod_unfold)
qed

lemma bindings_init: "bindings_ok init"
  by (simp add: bindings_ok_def init_def)


lemma in_room_sockets: "k \<in> set (room_sockets s c) \<longleftrightarrow> (k, c) \<in> set (rooms s)"
  by (force simp: room_sockets_def)

lemma reached_state:
  assumes "delivered es init" and "s = fst (run es init)"
  shows "well_formed s" and "bindings_ok s"
  using invariants_of_runs [OF well_formed_init bindings_init assms(1)] assms(2) by simp_all

lemma lobby_delivered: "delivered lobby_events init"
  by code_simp

section \<open>Leaving a channel without being a member\<close>

lemma leave_unknown_channel:
  "js_get (p_channelId p) (channels s) = None \<Longrightarrow>
   leave_channel sid p s =
     (s\<lparr>users := js_update sid (\<lambda>u. u\<lparr>u_currentChannel := Null\<rparr>) (users s)\<rparr>, [])"
  by (simp add: leave_channel_def Let_def)

lemma js_delete_not_member: "\<not> js_has k m \<Longrightarrow> js_delete k m = m"
  by (simp add: js_has_def js_delete_absent)

lemma leave_not_a_member:
  assumes dist: "distinct (js_keys (channels s))"
      and nonempty: "members_of s (p_channelId p) \<noteq> []"
      and notin: "\<not> js_has sid (members_of s (p_channelId p))"
  shows "leave_channel sid p s =
     (s\<lparr>users := js_update sid (\<lambda>u. u\<lparr>u_currentChannel := Null\<rparr>) (users s),
        rooms := filter (\<lambda>b. b \<noteq> (sid, p_channelId p)) (rooms s)\<rparr>,
      socket_to s sid (p_channelId p) (User_left (p_userId p)))"
proof -
  let ?c = "p_channelId p"
  from nonempty obtain ch where ch: "js_get ?c (channels s) = Some ch" and ne: "c_users ch \<noteq> []"
    by (auto simp: members_of_def split: option.splits)
  from notin ch have nm: "\<not> js_has sid (c_users ch)"
    by (simp add: members_of_def)
  have "js_update ?c (\<lambda>ch. ch\<lparr>c_users := js_delete sid (c_users ch)\<rparr>) (channels s) = channels s"
    using dist ch by (rule js_update_id) (simp add: js_delete_not_member nm)
  then have ud: "users_delete sid ?c s = s"
    by (simp add: users_delete_def)
  have de: "delete_if_empty ?c (socket_leave sid ?c s) = socket_leave sid ?c s"
    using ch ne by (simp add: delete_if_empty_def js_size_def socket_leave_def)
  have out: "socket_to (socket_leave sid ?c s) sid ?c (User_left (p_userId p)) =
               socket_to s sid ?c (User_left (p_userId p))"
    by (simp add: socket_to_def room_sockets_socket_leave)
  show ?thesis
    by (simp add: leave_channel_def Let_def ch ud de out) (simp add: socket_leave_def)
qed

text \<open>
  Claim C4, as amended. The handler guards the directory work with \<open>if (channel)\<close> and then
  sets \<open>user.currentChannel = null\<close> unconditionally; it never tests whether the connection
  is a member of the channel it names. No branch raises. For an unknown channel id, in any
  state, nothing is emitted and the state is unchanged except that the connection's
  \<open>currentChannel\<close> is set to null. For a channel of the directory of which the caller is
  not a member, in a state reached by deliverable events, the channel directory is
  unchanged and the caller's \<open>currentChannel\<close> is set to null, but a \<open>user-left\<close> carrying
  the payload's userId is broadcast to every connection bound to the channel's room. The
  handler also calls \<open>socket.leave(channelId)\<close>: this changes no binding, unless the
  channel is named by the caller's own connection id, in which case the caller is unbound
  from the room of its own id.
\<close>

theorem leave_without_membership:
  "(js_get (p_channelId p) (channels s) = None \<longrightarrow>
      leave_channel sid p s =
        (s\<lparr>users := js_update sid (\<lambda>u. u\<lparr>u_currentChannel := Null\<rparr>) (users s)\<rparr>, []))
   \<and> (delivered es init \<and> s = fst (run es init) \<and> js_has (p_channelId p) (channels s)
        \<and> \<not> js_has sid (members_of s (p_channelId p)) \<longrightarrow>
      leave_channel sid p s =
        (s\<lparr>users := js_update sid (\<lambda>u. u\<lparr>u_currentChannel := Null\<rparr>) (users s),
           rooms := filter (\<lambda>b. b \<noteq> (sid, p_channelId p)) (rooms s)\<rparr>,
         map (\<lambda>k. (k, User_left (p_userId p)))
           (filter (\<lambda>k. k \<noteq> sid) (room_sockets s (p_channelId p))))
      \<and> (p_channelId p \<noteq> JStr sid \<longrightarrow>
           leave_channel sid p s =
             (s\<lparr>users := js_update sid (\<lambda>u. u\<lparr>u_currentChannel := Null\<rparr>) (users s)\<rparr>,
              map (\<lambda>k. (k, User_left (p_userId p)))
                (filter (\<lambda>k. k \<noteq> sid) (room_sockets s (p_channelId p))))))"
proof (intro conjI impI)
  assume "js_get (p_channelId p) (channels s) = None"
  then show "leave_channel sid p s =
        (s\<lparr>users := js_update sid (\<lambda>u. u\<lparr>u_currentChannel := Null\<rparr>) (users s)\<rparr>, [])"
    by (rule leave_unknown_channel)
next
  assume h: "delivered es init \<and> s = fst (run es init) \<and> js_has (p_channelId p) (channels s)
        \<and> \<not> js_has sid (members_of s (p_channelId p))"
  then have del: "delivered es init" and reached: "s = fst (run es init)"
    and dir: "js_has (p_channelId p) (channels s)"
    and notin: "\<not> js_has sid (members_of s (p_channelId p))"
    by blast+
  from del reached have inv: "well_formed s" and b: "bindings_ok s"
    by (rule reached_state)+
  from inv have d: "distinct (js_keys (channels s))"
    by (simp add: well_formed_def)
  from inv dir have ne: "members_of s (p_channelId p) \<noteq> []"
    using well_formed_members [of s "p_channelId p"] by blast
  from leave_not_a_member [OF d ne notin]
  show exact: "leave_channel sid p s =
        (s\<lparr>users := js_update sid (\<lambda>u. u\<lparr>u_currentChannel := Null\<rparr>) (users s),
           rooms := filter (\<lambda>b. b \<noteq> (sid, p_channelId p)) (rooms s)\<rparr>,
         map (\<lambda>k. (k, User_left (p_userId p)))
           (filter (\<lambda>k. k \<noteq> sid) (room_sockets s (p_channelId p))))"
    by (simp only: socket_to_def)
  assume other: "p_channelId p \<noteq> JStr sid"
  with notin bindings_ok_bound [OF b, of sid "p_channelId p"]
  have unbound: "(sid, p_channelId p) \<notin> set (rooms s)"
    by (auto simp: js_has_iff)
  then have "filter (\<lambda>b. b \<noteq> (sid, p_channelId p)) (rooms s) = rooms s"
    by (auto intro: filter_True)
  with exact show "leave_channel sid p s =
        (s\<lparr>users := js_update sid (\<lambda>u. u\<lparr>u_currentChannel := Null\<rparr>) (users s)\<rparr>,
         map (\<lambda>k. (k, User_left (p_userId p)))
           (filter (\<lambda>k. k \<noteq> sid) (room_sockets s (p_channelId p))))"
    by simp
qed

text \<open>In the sample state: \<open>s1\<close>, whose current channel is \<open>A\<close>, leaves the unknown channel
  \<open>Z\<close> and the state changes; \<open>s3\<close>, a member of nothing, leaves \<open>A\<close> and both members of \<open>A\<close>
  are sent a \<open>user-left\<close>. (In the witness below, \<open>s1\<close> has also joined a channel named by
  the connection id of \<open>s3\<close>, and \<open>s3\<close> leaves that channel without being a member of it:
  \<open>s1\<close> is sent a \<open>user-left\<close> and \<open>s3\<close> is no longer bound to the room of its own id.)\<close>

theorem leave_without_membership_counterexample:
  "fst (leave_channel ''s1'' (in_channel ''Z'' ''u1'') lobby) \<noteq> lobby
   \<and> snd (leave_channel ''s3'' (in_channel ''A'' ''u1'') lobby) =
       [(''s1'', User_left (JStr ''u1'')), (''s2'', User_left (JStr ''u1''))]"
  by code_simp

theorem leave_without_membership_witness:
  "leave_channel ''s1'' (in_channel ''Z'' ''u1'') lobby =
     (lobby\<lparr>users :=
        [(''s1'', \<lparr>u_socketId = ''s1'', u_connectedAt = 0,
                   u_currentChannel = Null, u_userId = JStr ''u1''\<rparr>),
         (''s2'', \<lparr>u_socketId = ''s2'', u_connectedAt = 0,
                   u_currentChannel = JStr ''A'', u_userId = JStr ''u2''\<rparr>),
         (''s3'', \<lparr>u_socketId = ''s3'', u_connectedAt = 0,
                   u_currentChannel = Null, u_userId = Null\<rparr>)]\<rparr>, [])
   \<and> leave_channel ''s3'' (in_channel ''A'' ''u1'') lobby =
       (lobby, [(''s1'', User_left (JStr ''u1'')), (''s2'', User_left (JStr ''u1''))])
   \<and> leave_channel ''s3'' (in_channel ''s3'' ''u3'')
        (fst (run (lobby_events @ [(''s1'', 3, Join (in_channel ''s3'' ''u1''))]) init)) =
       ((fst (run (lobby_events @ [(''s1'', 3, Join (in_channel ''s3'' ''u1''))]) init))
          \<lparr>rooms := [(''s1'', JStr ''s1''), (''s2'', JStr ''s2''), (''s1'', JStr ''A''),
                    (''s2'', JStr ''A''), (''s1'', JStr ''s3'')]\<rparr>,
        [(''s1'', User_left (JStr ''u3''))])"
proof -
  let ?es = "lobby_events"
  let ?es' = "lobby_events @ [(''s1'', 3, Join (in_channel ''s3'' ''u1''))]"
  let ?j = "fst (run ?es' init)"
  let ?q = "in_channel ''s3'' ''u3''"
  have q: "p_userId ?q = JStr ''u3''"
    by (simp add: in_channel_def)
  have dj: "delivered ?es' init"
    by code_simp
  have dirj: "js_has (p_channelId ?q) (channels ?j)"
    by code_simp
  have notinj: "\<not> js_has ''s3'' (members_of ?j (p_channelId ?q))"
    by code_simp
  have uj: "js_update ''s3'' (\<lambda>u. u\<lparr>u_currentChannel := Null\<rparr>) (users ?j) = users ?j"
    by code_simp
  have rmj: "filter (\<lambda>b. b \<noteq> (''s3'', p_channelId ?q)) (rooms ?j) =
              [(''s1'', JStr ''s1''), (''s2'', JStr ''s2''), (''s1'', JStr ''A''),
               (''s2'', JStr ''A''), (''s1'', JStr ''s3'')]"
    by code_simp
  have outj: "filter (\<lambda>k. k \<noteq> ''s3'') (room_sockets ?j (p_channelId ?q)) = [''s1'']"
    by code_simp
  from leave_without_membership [of ?q ?j "''s3''" ?es'] dj dirj notinj
  have "leave_channel ''s3'' ?q ?j =
        (?j\<lparr>users := js_update ''s3'' (\<lambda>u. u\<lparr>u_currentChannel := Null\<rparr>) (users ?j),
            rooms := filter (\<lambda>b. b \<noteq> (''s3'', p_channelId ?q)) (rooms ?j)\<rparr>,
         map (\<lambda>k. (k, User_left (p_userId ?q)))
           (filter (\<lambda>k. k \<noteq> ''s3'') (room_sockets ?j (p_channelId ?q))))"
    by blast
  then have own: "leave_channel ''s3'' ?q ?j =
        (?j\<lparr>rooms := [(''s1'', JStr ''s1''), (''s2'', JStr ''s2''), (''s1'', JStr ''A''),
                     (''s2'', JStr ''A''), (''s1'', JStr ''s3'')]\<rparr>,
         [(''s1'', User_left (JStr ''u3''))])"
    by (simp add: uj rmj outj q)
  have c: "p_channelId (in_channel ''Z'' ''u1'') = JStr ''Z''"
          "p_channelId (in_channel ''A'' ''u1'') = JStr ''A''"
          "p_userId (in_channel ''A'' ''u1'') = JStr ''u1''"
    by (simp_all add: in_channel_def)
  have h0: "lobby = fst (run ?es init)"
    by (simp only: lobby_reachable fst_conv)
  have h1: "js_get (JStr ''Z'') (channels lobby) = None"
    by (simp add: lobby_def js_get_def)
  have h2: "js_has (JStr ''A'') (channels lobby)"
    by (simp add: lobby_def js_has_def js_get_def)
  have h3: "\<not> js_has ''s3'' (members_of lobby (JStr ''A''))"
    by (simp add: members_of_def lobby_def js_has_def js_get_def)
  have r: "room_sockets lobby (JStr ''A'') = [''s1'', ''s2'']"
    by (simp add: lobby_def room_sockets_def)
  have rm: "filter (\<lambda>b. b \<noteq> (''s3'', JStr ''A'')) (rooms lobby) = rooms lobby"
    by (simp add: lobby_def)
  have u1: "js_update ''s1'' (\<lambda>u. u\<lparr>u_currentChannel := Null\<rparr>) (users lobby) =
        [(''s1'', \<lparr>u_socketId = ''s1'', u_connectedAt = 0,
                   u_currentChannel = Null, u_userId = JStr ''u1''\<rparr>),
         (''s2'', \<lparr>u_socketId = ''s2'', u_connectedAt = 0,
                   u_currentChannel = JStr ''A'', u_userId = JStr ''u2''\<rparr>),
         (''s3'', \<lparr>u_socketId = ''s3'', u_connectedAt = 0,
                   u_currentChannel = Null, u_userId = Null\<rparr>)]"
    by (simp add: lobby_def js_update_def)
  have u3: "js_update ''s3'' (\<lambda>u. u\<lparr>u_currentChannel := Null\<rparr>) (users lobby) = users lobby"
    by (simp add: lobby_def js_update_def)
  have a: "leave_channel ''s1'' (in_channel ''Z'' ''u1'') lobby =
             (lobby\<lparr>users := js_update ''s1'' (\<lambda>u. u\<lparr>u_currentChannel := Null\<rparr>) (users lobby)\<rparr>, [])"
    using leave_without_membership [of "in_channel ''Z'' ''u1''" lobby "''s1''" ?es] h1
    by (simp add: c)
  have b: "leave_channel ''s3'' (in_channel ''A'' ''u1'') lobby =
             (lobby\<lparr>users := js_update ''s3'' (\<lambda>u. u\<lparr>u_currentChannel := Null\<rparr>) (users lobby)\<rparr>,
              map (\<lambda>k. (k, User_left (JStr ''u1'')))
                (filter (\<lambda>k. k \<noteq> ''s3'') (room_sockets lobby (JStr ''A''))))"
    using leave_without_membership [of "in_channel ''A'' ''u1''" lobby "''s3''" ?es]
      lobby_delivered h0 h2 h3
    by (simp add: c rm)
  from a b own show ?thesis
    by (simp add: u1 u3 r)
qed

section \<open>The timestamp of transmission events\<close>

text \<open>
  Claim C8, as amended. \<open>transmission-start\<close> (in both files) and \<open>transmission-end\<close>
  broadcast to the connections bound to the named room other than the sender; the event
  carries the userId of the payload and the server's clock reading. The handlers
  destructure \<open>{ channelId, userId }\<close> only, so the outcome is the same whatever
  \<open>timestamp\<close> the client put in the payload: the client's value is never used.
\<close>

theorem transmission_timestamp_is_the_servers:
  "transmission_start_A sid now (p\<lparr>p_timestamp := t\<rparr>) s =
     (s, map (\<lambda>k. (k, Transmission_start (p_userId p) (JNum now)))
           (filter (\<lambda>k. k \<noteq> sid) (room_sockets s (p_channelId p))))
   \<and> snd (transmission_start_B sid now (p\<lparr>p_timestamp := t\<rparr>) s) =
       map (\<lambda>k. (k, Transmission_start (p_userId p) (JNum now)))
         (filter (\<lambda>k. k \<noteq> sid) (room_sockets s (p_channelId p)))
   \<and> transmission_end sid now (p\<lparr>p_timestamp := t\<rparr>) s =
       (s, map (\<lambda>k. (k, Transmission_end (p_userId p) (JNum now)))
             (filter (\<lambda>k. k \<noteq> sid) (room_sockets s (p_channelId p))))"
  by (simp add: transmission_start_A_def transmission_start_B_def transmission_end_def
      socket_to_def)

text \<open>In the sample state, \<open>s2\<close> sends both events at server time 9 with the client
  timestamp 5: the other member receives the timestamp 9.\<close>

theorem client_timestamp_dropped_counterexample:
  "snd (transmission_start_A ''s2'' 9 ((in_channel ''A'' ''u2'')\<lparr>p_timestamp := JNum 5\<rparr>) lobby) =
     [(''s1'', Transmission_start (JStr ''u2'') (JNum 9))]
   \<and> snd (transmission_start_B ''s2'' 9 ((in_channel ''A'' ''u2'')\<lparr>p_timestamp := JNum 5\<rparr>) lobby) =
     [(''s1'', Transmission_start (JStr ''u2'') (JNum 9))]
   \<and> snd (transmission_end ''s2'' 9 ((in_channel ''A'' ''u2'')\<lparr>p_timestamp := JNum 5\<rparr>) lobby) =
     [(''s1'', Transmission_end (JStr ''u2'') (JNum 9))]"
  by code_simp

section \<open>The rooms named by connection ids\<close>

text \<open>The signaling handlers address a connection through the room named by its id. In a
  state reached by deliverable events, if no channel of the directory is named by the id
  of a connection, that room holds at most the connection itself: exactly the connection
  if it is still bound to it, nobody if the connection has closed. A live connection is
  still bound to it if no \<open>leave-channel\<close> of the run named the sender's own id.\<close>

lemma at_most_one:
  "distinct xs \<Longrightarrow> set xs \<subseteq> {k} \<Longrightarrow> xs = (if k \<in> set xs then [k] else [])"
  by (cases xs) (auto simp: subset_singleton_iff)

lemma own_room_only:
  assumes w: "well_formed s" and b: "bindings_ok s"
      and free: "\<not> js_has (JStr k) (channels s)"
  shows "room_sockets s (JStr k) = (if (k, JStr k) \<in> set (rooms s) then [k] else [])"
proof -
  from free have none: "members_of s (JStr k) = []"
    by (simp add: members_of_def js_has_def)
  have "j = k" if "j \<in> set (room_sockets s (JStr k))" for j
  proof -
    from that have "(j, JStr k) \<in> set (rooms s)"
      by (simp add: in_room_sockets)
    from bindings_ok_bound [OF b this] none show ?thesis
      by (simp add: js_keys_def)
  qed
  then have "set (room_sockets s (JStr k)) \<subseteq> {k}"
    by blast
  with well_formed_room [OF w, of "JStr k"]
  have "room_sockets s (JStr k) = (if k \<in> set (room_sockets s (JStr k)) then [k] else [])"
    by (rule at_most_one)
  then show ?thesis
    by (simp add: in_room_sockets)
qed

lemma closed_unbound:
  "bindings_ok s \<Longrightarrow> k \<notin> set (sockets s) \<Longrightarrow> (k, c) \<notin> set (rooms s)"
  using bindings_ok_bound [of s k c] by blast

lemma own_roomsI:
  "(\<And>k. k \<in> set (sockets s) \<Longrightarrow> (k, JStr k) \<in> set (rooms s)) \<Longrightarrow> own_rooms s"
  by (simp add: own_rooms_def list_all_iff)

lemma own_roomsD: "own_rooms s \<Longrightarrow> k \<in> set (sockets s) \<Longrightarrow> (k, JStr k) \<in> set (rooms s)"
  by (simp add: own_rooms_def list_all_iff)

lemma own_rooms_connection:
  assumes "own_rooms s"
  shows "own_rooms (fst (connection sid now s))"
proof (rule own_roomsI)
  fix k
  assume "k \<in> set (sockets (fst (connection sid now s)))"
  then have "k = sid \<or> k \<in> set (sockets s)"
    by (simp add: transport_after_connection)
  then have "k = sid \<or> (k, JStr k) \<in> set (rooms s)"
    using assms by (auto dest: own_roomsD)
  then show "(k, JStr k) \<in> set (rooms (fst (connection sid now s)))"
    by (auto simp: transport_after_connection)
qed

lemma own_rooms_join_channel:
  assumes "own_rooms s"
  shows "own_rooms (fst (join_channel sid now p s))"
proof (rule own_roomsI)
  fix k
  assume "k \<in> set (sockets (fst (join_channel sid now p s)))"
  then have "k \<in> set (sockets s)"
    by (simp add: transport_after_join)
  with assms have "(k, JStr k) \<in> set (rooms s)"
    by (rule own_roomsD)
  then show "(k, JStr k) \<in> set (rooms (fst (join_channel sid now p s)))"
    by (simp add: transport_after_join)
qed

lemma own_rooms_leave_channel:
  assumes "own_rooms s" and "p_channelId p \<noteq> JStr sid"
  shows "own_rooms (fst (leave_channel sid p s))"
proof (rule own_roomsI)
  fix k
  assume "k \<in> set (sockets (fst (leave_channel sid p s)))"
  then have "k \<in> set (sockets s)"
    by (simp add: transport_after_leave(1))
  with assms(1) have "(k, JStr k) \<in> set (rooms s)"
    by (rule own_roomsD)
  moreover from assms(2) have "(k, JStr k) \<noteq> (sid, p_channelId p)"
    by auto
  ultimately have "(k, JStr k) \<in> set (rooms s) - {(sid, p_channelId p)}"
    by simp
  with transport_after_leave(3) [of s sid p]
  show "(k, JStr k) \<in> set (rooms (fst (leave_channel sid p s)))"
    by (rule subsetD)
qed

lemma own_rooms_disconnect:
  assumes "own_rooms s"
  shows "own_rooms (fst (disconnect sid s))"
proof (rule own_roomsI)
  fix k
  assume "k \<in> set (sockets (fst (disconnect sid s)))"
  then have l: "k \<in> set (sockets s)" and ne: "k \<noteq> sid"
    by (simp_all add: transport_after_disconnect)
  from assms l have "(k, JStr k) \<in> set (rooms s)"
    by (rule own_roomsD)
  with ne show "(k, JStr k) \<in> set (rooms (fst (disconnect sid s)))"
    by (simp add: transport_after_disconnect)
qed

lemma own_rooms_other:
  "own_rooms s \<Longrightarrow> own_rooms (incrementMessageCount c s)"
  "own_rooms s \<Longrightarrow> own_rooms (sweep s)"
  by (simp_all add: own_rooms_def incrementMessageCount_def sweep_def)

lemma own_rooms_handle:
  assumes o: "own_rooms s" and e: "keeps_own_room e"
  shows "own_rooms (fst (handle e s))"
proof -
  obtain sid now ev where ev: "e = (sid, now, ev)"
    by (cases e) auto
  show ?thesis
  proof (cases ev)
    case (Leave p)
    with e have "p_channelId p \<noteq> JStr sid"
      by (simp add: ev keeps_own_room_def)
    with o Leave show ?thesis
      by (simp add: ev own_rooms_leave_channel)
  qed (insert o, simp_all add: ev other_events own_rooms_connection own_rooms_join_channel
        own_rooms_disconnect own_rooms_other)
qed

lemma own_rooms_run:
  "own_rooms s \<Longrightarrow> list_all keeps_own_room es \<Longrightarrow> own_rooms (fst (run es s))"
proof (induction es arbitrary: s)
  case Nil
  then show ?case by simp
next
  case (Cons e es)
  from Cons.prems have "own_rooms (fst (handle e s))"
    by (simp add: own_rooms_handle)
  with Cons.prems have "own_rooms (fst (run es (fst (handle e s))))"
    by (simp add: Cons.IH)
  then show ?case
    by (simp add: case_prod_unfold)
qed

lemma own_room_kept:
  assumes "list_all keeps_own_room es" and "k \<in> set (sockets (fst (run es init)))"
  shows "(k, JStr k) \<in> set (rooms (fst (run es init)))"
proof -
  have "own_rooms init"
    by (simp add: own_rooms_def init_def)
  from own_rooms_run [OF this assms(1)] assms(2) show ?thesis
    by (simp add: own_rooms_def list_all_iff)
qed

lemma target_room:
  assumes del: "delivered es init" and reached: "s = fst (run es init)"
      and rec: "(k, m) \<in> set (members_of s c)"
      and free: "\<not> js_has (JStr k) (channels s)"
  shows "m_socketId m = k
       \<and> room_sockets s (JStr k) = (if (k, JStr k) \<in> set (rooms s) then [k] else [])
       \<and> (k \<notin> set (sockets s) \<longrightarrow> room_sockets s (JStr k) = [])
       \<and> (k \<in> set (sockets s) \<and> list_all keeps_own_room es \<longrightarrow> room_sockets s (JStr k) = [k])"
proof -
  from del reached have w: "well_formed s" and b: "bindings_ok s"
    by (rule reached_state)+
  from w rec have key: "m_socketId m = k"
    using well_formed_members [of s c] by blast
  from w b free
  have room: "room_sockets s (JStr k) = (if (k, JStr k) \<in> set (rooms s) then [k] else [])"
    by (rule own_room_only)
  have closed: "room_sockets s (JStr k) = []" if "k \<notin> set (sockets s)"
    using closed_unbound [OF b that, of "JStr k"] by (simp add: room)
  have live: "room_sockets s (JStr k) = [k]"
    if "k \<in> set (sockets s)" "list_all keeps_own_room es"
  proof -
    from own_room_kept [OF that(2), of k] that(1) have "(k, JStr k) \<in> set (rooms s)"
      unfolding reached by simp
    then show ?thesis
      by (simp add: room)
  qed
  from key room closed live show ?thesis
    by blast
qed

section \<open>Signaling: who is sent a targeted payload\<close>

lemma findSocketIdByUserId_None:
  "dest \<notin> u_userId ` set (js_values us) \<Longrightarrow> findSocketIdByUserId us dest = None"
  by (induction us dest rule: findSocketIdByUserId.induct) (auto simp: js_values_def)

lemma find_target_None:
  "t \<notin> m_userId ` set (js_values (members_of s c)) \<Longrightarrow> find_target c t s = None"
  by (auto simp: find_target_def members_of_def find_None_iff split: option.splits)

lemma find_first: "P x \<Longrightarrow> \<forall>y \<in> set xs. \<not> P y \<Longrightarrow> List.find P (xs @ x # ys) = Some x"
  by (induction xs) auto

lemma find_target_first:
  assumes "members_of s c = pre @ (k, m) # post" and "m_userId m = t"
      and "t \<notin> m_userId ` set (js_values pre)"
  shows "find_target c t s = Some m"
proof -
  from assms(1) obtain ch where ch: "js_get c (channels s) = Some ch"
    and us: "c_users ch = pre @ (k, m) # post"
    by (cases "js_get c (channels s)") (auto simp: members_of_def)
  from assms(3) have "\<forall>u \<in> set (js_values pre). m_userId u \<noteq> t"
    by blast
  with assms(2)
  have "List.find (\<lambda>u. m_userId u = t) (js_values pre @ m # js_values post) = Some m"
    by (intro find_first) simp_all
  then show ?thesis
    by (simp add: find_target_def ch us js_values_def)
qed

lemma targeted_out:
  assumes "members_of s c = pre @ (k, m) # post" and "m_userId m = t"
      and "t \<notin> m_userId ` set (js_values pre)"
  shows "send_target c t e s = map (\<lambda>j. (j, e)) (room_sockets s (JStr (m_socketId m)))"
  by (simp add: send_target_def find_target_first [OF assms] io_to_def)

lemma answer_A_out:
  "webrtc_answer_A sid p s =
     (s, send_target (p_channelId p) (p_targetUserId p) (Answer_A (p_userId p) (p_answer p)) s)"
  by (simp add: webrtc_answer_A_def)

lemma ice_A_out:
  "webrtc_ice_candidate_A sid p s =
     (s, if truthy (p_targetUserId p)
         then send_target (p_channelId p) (p_targetUserId p) (Ice_A (p_userId p) (p_candidate p)) s
         else map (\<lambda>k. (k, Ice_A (p_userId p) (p_candidate p)))
                (filter (\<lambda>k. k \<noteq> sid) (room_sockets s (p_channelId p))))"
  by (simp add: webrtc_ice_candidate_A_def socket_to_def)

lemma offer_A_out:
  "webrtc_offer_A sid p s =
     (s, map (\<lambda>k. (k, Offer_A (p_userId p) (p_offer p)))
           (filter (\<lambda>k. k \<noteq> sid) (room_sockets s (p_channelId p))))"
  by (simp add: webrtc_offer_A_def socket_to_def)

lemma send_target_nobody:
  "t \<notin> m_userId ` set (js_values (members_of s c)) \<Longrightarrow> send_target c t e s = []"
  by (simp add: send_target_def find_target_None)

text \<open>
  Claim C6, as amended. A destination that resolves to nobody is dropped, with no error
  and no reply to the sender, wherever the handler resolves a destination. In the globally
  addressed variant, when no registered connection has the userId given as \<open>to\<close>, each of
  \<open>webrtc-offer\<close>, \<open>webrtc-answer\<close> and \<open>ice-candidate\<close> emits nothing and leaves the state as
  it is. In the channel-scoped variant \<open>webrtc-answer\<close>, and \<open>webrtc-ice-candidate\<close> with a
  truthy \<open>targetUserId\<close>, emit nothing and leave the state as it is when no record of the
  named channel's member map has that userId (in particular when the channel is unknown);
  and also, in a state reached by deliverable events, when the first record with that
  userId belongs to a connection that has closed and no channel of the directory is named
  by that connection's id. But the channel-scoped handlers do not resolve a destination in
  every case: \<open>webrtc-offer\<close> never reads \<open>targetUserId\<close>, and \<open>webrtc-ice-candidate\<close> takes a
  falsy \<open>targetUserId\<close> (\<open>0\<close>, the empty string) for none; in both cases the payload is
  broadcast to the connections bound to the channel's room other than the sender, whether
  or not \<open>targetUserId\<close> names a member.
\<close>

theorem unresolved_destination_is_dropped:
  "(p_to p \<notin> u_userId ` set (js_values (users s)) \<longrightarrow>
      webrtc_offer_B sid p s = (s, []) \<and> webrtc_answer_B sid p s = (s, [])
      \<and> ice_candidate_B sid p s = (s, []))
   \<and> (p_targetUserId p \<notin> m_userId ` set (js_values (members_of s (p_channelId p))) \<longrightarrow>
      webrtc_answer_A sid p s = (s, [])
      \<and> (truthy (p_targetUserId p) \<longrightarrow> webrtc_ice_candidate_A sid p s = (s, [])))
   \<and> (delivered es init \<and> s = fst (run es init)
        \<and> members_of s (p_channelId p) = pre @ (k, m) # post
        \<and> m_userId m = p_targetUserId p
        \<and> p_targetUserId p \<notin> m_userId ` set (js_values pre)
        \<and> k \<notin> set (sockets s) \<and> \<not> js_has (JStr k) (channels s) \<longrightarrow>
      webrtc_answer_A sid p s = (s, [])
      \<and> (truthy (p_targetUserId p) \<longrightarrow> webrtc_ice_candidate_A sid p s = (s, [])))
   \<and> webrtc_offer_A sid p s =
       (s, map (\<lambda>j. (j, Offer_A (p_userId p) (p_offer p)))
             (filter (\<lambda>j. j \<noteq> sid) (room_sockets s (p_channelId p))))
   \<and> (\<not> truthy (p_targetUserId p) \<longrightarrow>
        webrtc_ice_candidate_A sid p s =
          (s, map (\<lambda>j. (j, Ice_A (p_userId p) (p_candidate p)))
                (filter (\<lambda>j. j \<noteq> sid) (room_sockets s (p_channelId p)))))"
proof (intro conjI impI)
  assume "p_to p \<notin> u_userId ` set (js_values (users s))"
  then have none: "findSocketIdByUserId (users s) (p_to p) = None"
    by (rule findSocketIdByUserId_None)
  show "webrtc_offer_B sid p s = (s, [])"
    by (simp add: webrtc_offer_B_def relay_to_def none)
  show "webrtc_answer_B sid p s = (s, [])"
    by (simp add: webrtc_answer_B_def relay_to_def none)
  show "ice_candidate_B sid p s = (s, [])"
    by (simp add: ice_candidate_B_def relay_to_def none)
next
  assume n: "p_targetUserId p \<notin> m_userId ` set (js_values (members_of s (p_channelId p)))"
  show "webrtc_answer_A sid p s = (s, [])"
    by (simp add: answer_A_out send_target_nobody [OF n])
  assume "truthy (p_targetUserId p)"
  then show "webrtc_ice_candidate_A sid p s = (s, [])"
    by (simp add: ice_A_out send_target_nobody [OF n])
next
  assume h: "delivered es init \<and> s = fst (run es init)
        \<and> members_of s (p_channelId p) = pre @ (k, m) # post
        \<and> m_userId m = p_targetUserId p
        \<and> p_targetUserId p \<notin> m_userId ` set (js_values pre)
        \<and> k \<notin> set (sockets s) \<and> \<not> js_has (JStr k) (channels s)"
  then have del: "delivered es init" and reached: "s = fst (run es init)"
    and ms: "members_of s (p_channelId p) = pre @ (k, m) # post"
    and hit: "m_userId m = p_targetUserId p"
    and first: "p_targetUserId p \<notin> m_userId ` set (js_values pre)"
    and closed: "k \<notin> set (sockets s)" and free: "\<not> js_has (JStr k) (channels s)"
    by blast+
  from ms have rec: "(k, m) \<in> set (members_of s (p_channelId p))"
    by simp
  from target_room [OF del reached rec free] closed
  have "m_socketId m = k" and "room_sockets s (JStr k) = []"
    by blast+
  then have nobody: "send_target (p_channelId p) (p_targetUserId p) e s = []" for e
    by (simp add: targeted_out [OF ms hit first])
  show "webrtc_answer_A sid p s = (s, [])"
    by (simp add: answer_A_out nobody)
  assume "truthy (p_targetUserId p)"
  then show "webrtc_ice_candidate_A sid p s = (s, [])"
    by (simp add: ice_A_out nobody)
next
  show "webrtc_offer_A sid p s =
       (s, map (\<lambda>j. (j, Offer_A (p_userId p) (p_offer p)))
             (filter (\<lambda>j. j \<noteq> sid) (room_sockets s (p_channelId p))))"
    by (rule offer_A_out)
next
  assume "\<not> truthy (p_targetUserId p)"
  then show "webrtc_ice_candidate_A sid p s =
          (s, map (\<lambda>j. (j, Ice_A (p_userId p) (p_candidate p)))
                (filter (\<lambda>j. j \<noteq> sid) (room_sockets s (p_channelId p))))"
    by (simp add: ice_A_out)
qed

text \<open>In the sample state no member of \<open>A\<close> has the empty string, the number 0 or \<open>nobody\<close>
  as userId. An ICE candidate from \<open>s1\<close> with \<open>targetUserId\<close> the empty string, or 0, and an
  offer from \<open>s1\<close> with \<open>targetUserId\<close> \<open>nobody\<close>, are all delivered to \<open>s2\<close>.\<close>

theorem unresolvable_target_is_broadcast_counterexample:
  "find_target (JStr ''A'') (JStr []) lobby = None
   \<and> snd (webrtc_ice_candidate_A ''s1''
            ((in_channel ''A'' ''u1'')\<lparr>p_targetUserId := JStr [], p_candidate := JStr ''ice''\<rparr>)
            lobby) = [(''s2'', Ice_A (JStr ''u1'') (JStr ''ice''))]
   \<and> find_target (JStr ''A'') (JNum 0) lobby = None
   \<and> snd (webrtc_ice_candidate_A ''s1''
            ((in_channel ''A'' ''u1'')\<lparr>p_targetUserId := JNum 0, p_candidate := JStr ''ice''\<rparr>)
            lobby) = [(''s2'', Ice_A (JStr ''u1'') (JStr ''ice''))]
   \<and> find_target (JStr ''A'') (JStr ''nobody'') lobby = None
   \<and> snd (webrtc_offer_A ''s1''
            ((in_channel ''A'' ''u1'')\<lparr>p_targetUserId := JStr ''nobody'', p_offer := JStr ''sdp''\<rparr>)
            lobby) = [(''s2'', Offer_A (JStr ''u1'') (JStr ''sdp''))]"
  by code_simp

text \<open>In the sample state nobody is called \<open>nobody\<close>. After the run that leaves the record
  of the closed connection \<open>s3\<close> (userId \<open>u3\<close>) in channel \<open>A\<close>, an answer or a candidate for
  \<open>u3\<close> resolves to that record and reaches nobody.\<close>

theorem unresolved_destination_is_dropped_witness:
  "webrtc_offer_B ''s1'' (no_payload\<lparr>p_to := JStr ''nobody'', p_offer := JStr ''sdp''\<rparr>) lobby
     = (lobby, [])
   \<and> webrtc_answer_B ''s1'' (no_payload\<lparr>p_to := JStr ''nobody'', p_offer := JStr ''sdp''\<rparr>) lobby
     = (lobby, [])
   \<and> ice_candidate_B ''s1'' (no_payload\<lparr>p_to := JStr ''nobody'', p_offer := JStr ''sdp''\<rparr>) lobby
     = (lobby, [])
   \<and> webrtc_answer_A ''s1''
        ((in_channel ''A'' ''u1'')\<lparr>p_targetUserId := JStr ''nobody'', p_answer := JStr ''sdp''\<rparr>) lobby
     = (lobby, [])
   \<and> webrtc_ice_candidate_A ''s1''
        ((in_channel ''A'' ''u1'')\<lparr>p_targetUserId := JStr ''nobody'', p_answer := JStr ''sdp''\<rparr>) lobby
     = (lobby, [])
   \<and> webrtc_answer_A ''s1''
        ((in_channel ''A'' ''u1'')\<lparr>p_targetUserId := JStr ''u3'', p_answer := JStr ''sdp''\<rparr>)
        (fst (run stale_events init))
     = (fst (run stale_events init), [])
   \<and> webrtc_ice_candidate_A ''s1''
        ((in_channel ''A'' ''u1'')\<lparr>p_targetUserId := JStr ''u3'', p_answer := JStr ''sdp''\<rparr>)
        (fst (run stale_events init))
     = (fst (run stale_events init), [])
   \<and> webrtc_ice_candidate_A ''s1'' ((in_channel ''A'' ''u1'')\<lparr>p_candidate := JStr ''ice''\<rparr>) lobby
     = (lobby, [(''s2'', Ice_A (JStr ''u1'') (JStr ''ice''))])"
proof -
  let ?m1 = "\<lparr>m_userId = JStr ''u1'', m_socketId = ''s1'', m_joinedAt = 1\<rparr>"
  let ?m2 = "\<lparr>m_userId = JStr ''u2'', m_socketId = ''s2'', m_joinedAt = 2\<rparr>"
  let ?m3 = "\<lparr>m_userId = JStr ''u3'', m_socketId = ''s3'', m_joinedAt = 3\<rparr>"
  let ?st = "fst (run stale_events init)"
  let ?p = "(in_channel ''A'' ''u1'')\<lparr>p_targetUserId := JStr ''u3'', p_answer := JStr ''sdp''\<rparr>"
  have m: "members_of lobby (JStr ''A'') = [(''s1'', ?m1), (''s2'', ?m2)]"
    by (simp add: members_of_def lobby_def js_get_def)
  have u: "u_userId ` snd ` set (users lobby) = {JStr ''u1'', JStr ''u2'', Null}"
    by (simp add: lobby_def)
  have r: "room_sockets lobby (JStr ''A'') = [''s1'', ''s2'']"
    by (simp add: lobby_def room_sockets_def)
  have d: "delivered stale_events init"
    by code_simp
  have ms: "members_of ?st (p_channelId ?p) = [(''s1'', ?m1), (''s2'', ?m2)] @ (''s3'', ?m3) # []"
    by code_simp
  have closed: "''s3'' \<notin> set (sockets ?st)"
    by code_simp
  have free: "\<not> js_has (JStr ''s3'') (channels ?st)"
    by code_simp
  have stale: "webrtc_answer_A ''s1'' ?p ?st = (?st, [])
             \<and> webrtc_ice_candidate_A ''s1'' ?p ?st = (?st, [])"
    using unresolved_destination_is_dropped
            [of ?p ?st "''s1''" stale_events "[(''s1'', ?m1), (''s2'', ?m2)]" "''s3''" ?m3 "[]"]
          d ms closed free
    by (simp add: js_values_def)
  from unresolved_destination_is_dropped
         [of "no_payload\<lparr>p_to := JStr ''nobody'', p_offer := JStr ''sdp''\<rparr>" lobby "''s1''"]
       unresolved_destination_is_dropped
         [of "(in_channel ''A'' ''u1'')\<lparr>p_targetUserId := JStr ''nobody'', p_answer := JStr ''sdp''\<rparr>"
             lobby "''s1''"]
       unresolved_destination_is_dropped
         [of "(in_channel ''A'' ''u1'')\<lparr>p_candidate := JStr ''ice''\<rparr>" lobby "''s1''"]
       stale
  show ?thesis
    by (simp add: u m r in_channel_def no_payload_def js_values_def)
qed

text \<open>
  Claim C7, as amended. In the channel-scoped variant the three payload kinds are
  addressed in three different ways. \<open>webrtc-offer\<close> is always broadcast to the connections
  bound to the channel's room other than the sender, whatever \<open>targetUserId\<close> the payload
  holds. \<open>webrtc-answer\<close> is always targeted: the channel's member map is scanned in
  insertion order for the first record whose userId is \<open>targetUserId\<close> (an absent
  \<open>targetUserId\<close> is \<open>undefined\<close>, and it is the userId of a member that joined without
  one); when there is no such record, or no such channel, the payload is dropped;
  otherwise it is sent to every connection bound to the room named by the socket id that
  the record holds. \<open>webrtc-ice-candidate\<close> is targeted in the same way when
  \<open>targetUserId\<close> is truthy and broadcast like an offer otherwise. Who is bound to the room
  named by a member's socket id: in a state reached by deliverable events, where the
  member records are stored under the socket ids they hold, if no channel of the directory
  is named by that socket id, the room holds the member's own connection alone if the
  connection is still bound to it and nobody otherwise; nobody if the connection has
  closed; and the connection alone if it is live and no \<open>leave-channel\<close> of the run
  named the sender's own id.
\<close>

theorem channel_scoped_addressing:
  "webrtc_offer_A sid p s =
     (s, map (\<lambda>j. (j, Offer_A (p_userId p) (p_offer p)))
           (filter (\<lambda>j. j \<noteq> sid) (room_sockets s (p_channelId p))))
   \<and> (\<not> truthy (p_targetUserId p) \<longrightarrow>
        webrtc_ice_candidate_A sid p s =
          (s, map (\<lambda>j. (j, Ice_A (p_userId p) (p_candidate p)))
                (filter (\<lambda>j. j \<noteq> sid) (room_sockets s (p_channelId p)))))
   \<and> (p_targetUserId p \<notin> m_userId ` set (js_values (members_of s (p_channelId p))) \<longrightarrow>
        webrtc_answer_A sid p s = (s, [])
        \<and> (truthy (p_targetUserId p) \<longrightarrow> webrtc_ice_candidate_A sid p s = (s, [])))
   \<and> (members_of s (p_channelId p) = pre @ (k, m) # post
        \<and> m_userId m = p_targetUserId p
        \<and> p_targetUserId p \<notin> m_userId ` set (js_values pre) \<longrightarrow>
        webrtc_answer_A sid p s =
          (s, map (\<lambda>j. (j, Answer_A (p_userId p) (p_answer p)))
                (room_sockets s (JStr (m_socketId m))))
        \<and> (truthy (p_targetUserId p) \<longrightarrow>
             webrtc_ice_candidate_A sid p s =
               (s, map (\<lambda>j. (j, Ice_A (p_userId p) (p_candidate p)))
                     (room_sockets s (JStr (m_socketId m))))))
   \<and> (delivered es init \<and> s = fst (run es init) \<and> (k, m) \<in> set (members_of s c)
        \<and> \<not> js_has (JStr k) (channels s) \<longrightarrow>
        m_socketId m = k
        \<and> room_sockets s (JStr k) = (if (k, JStr k) \<in> set (rooms s) then [k] else [])
        \<and> (k \<notin> set (sockets s) \<longrightarrow> room_sockets s (JStr k) = [])
        \<and> (k \<in> set (sockets s) \<and> list_all keeps_own_room es \<longrightarrow>
             room_sockets s (JStr k) = [k]))"
proof -
  have offer: "webrtc_offer_A sid p s =
     (s, map (\<lambda>j. (j, Offer_A (p_userId p) (p_offer p)))
           (filter (\<lambda>j. j \<noteq> sid) (room_sockets s (p_channelId p))))"
    by (rule offer_A_out)
  have ice: "webrtc_ice_candidate_A sid p s =
          (s, map (\<lambda>j. (j, Ice_A (p_userId p) (p_candidate p)))
                (filter (\<lambda>j. j \<noteq> sid) (room_sockets s (p_channelId p))))"
    if "\<not> truthy (p_targetUserId p)"
    using that by (simp add: ice_A_out)
  have none: "webrtc_answer_A sid p s = (s, [])
        \<and> (truthy (p_targetUserId p) \<longrightarrow> webrtc_ice_candidate_A sid p s = (s, []))"
    if "p_targetUserId p \<notin> m_userId ` set (js_values (members_of s (p_channelId p)))"
    by (simp add: answer_A_out ice_A_out send_target_nobody [OF that])
  have some: "webrtc_answer_A sid p s =
          (s, map (\<lambda>j. (j, Answer_A (p_userId p) (p_answer p)))
                (room_sockets s (JStr (m_socketId m))))
        \<and> (truthy (p_targetUserId p) \<longrightarrow>
             webrtc_ice_candidate_A sid p s =
               (s, map (\<lambda>j. (j, Ice_A (p_userId p) (p_candidate p)))
                     (room_sockets s (JStr (m_socketId m)))))"
    if "members_of s (p_channelId p) = pre @ (k, m) # post"
      and "m_userId m = p_targetUserId p"
      and "p_targetUserId p \<notin> m_userId ` set (js_values pre)"
    by (simp add: answer_A_out ice_A_out targeted_out [OF that])
  have room: "m_socketId m = k
        \<and> room_sockets s (JStr k) = (if (k, JStr k) \<in> set (rooms s) then [k] else [])
        \<and> (k \<notin> set (sockets s) \<longrightarrow> room_sockets s (JStr k) = [])
        \<and> (k \<in> set (sockets s) \<and> list_all keeps_own_room es \<longrightarrow>
             room_sockets s (JStr k) = [k])"
    if "delivered es init" and "s = fst (run es init)" and "(k, m) \<in> set (members_of s c)"
      and "\<not> js_has (JStr k) (channels s)"
    using that by (rule target_room)
  from offer ice none some room show ?thesis
    by blast
qed

text \<open>With a third member \<open>u3\<close> in channel \<open>A\<close>, an offer from \<open>s1\<close> that names the target
  \<open>u2\<close> reaches \<open>s3\<close> as well; in the sample state an answer from \<open>s1\<close> that names no target
  is dropped, not broadcast to \<open>s2\<close>.\<close>

theorem offer_ignores_target_answer_never_broadcasts_counterexample:
  "snd (webrtc_offer_A ''s1''
          ((in_channel ''A'' ''u1'')\<lparr>p_targetUserId := JStr ''u2'', p_offer := JStr ''sdp''\<rparr>)
          (fst (join_channel ''s3'' 3 (in_channel ''A'' ''u3'') lobby))) =
     [(''s2'', Offer_A (JStr ''u1'') (JStr ''sdp'')), (''s3'', Offer_A (JStr ''u1'') (JStr ''sdp''))]
   \<and> snd (webrtc_answer_A ''s1'' ((in_channel ''A'' ''u1'')\<lparr>p_answer := JStr ''sdp''\<rparr>) lobby) = []"
  by code_simp

text \<open>In the sample state: an offer from \<open>s1\<close> that names \<open>u2\<close> and a candidate from \<open>s1\<close>
  that names nobody are broadcast to the rest of the room; an answer from \<open>s1\<close> for \<open>nobody\<close>
  is dropped; an answer and a candidate from \<open>s2\<close> for \<open>u1\<close> go to \<open>s1\<close>, which is alone in
  the room of its id. After \<open>s3\<close> has joined a channel named by the socket id of \<open>s1\<close>, the
  answer for \<open>u1\<close> goes to \<open>s3\<close> as well. After \<open>s3\<close> has joined \<open>A\<close> with a payload that
  holds no userId, an answer from \<open>s1\<close> that holds no \<open>targetUserId\<close> goes to \<open>s3\<close>.\<close>

theorem channel_scoped_addressing_witness:
  "webrtc_offer_A ''s1''
     ((in_channel ''A'' ''u1'')\<lparr>p_targetUserId := JStr ''u2'', p_offer := JStr ''sdp''\<rparr>) lobby =
     (lobby, [(''s2'', Offer_A (JStr ''u1'') (JStr ''sdp''))])
   \<and> webrtc_ice_candidate_A ''s1'' ((in_channel ''A'' ''u1'')\<lparr>p_candidate := JStr ''ice''\<rparr>) lobby =
     (lobby, [(''s2'', Ice_A (JStr ''u1'') (JStr ''ice''))])
   \<and> webrtc_answer_A ''s1''
        ((in_channel ''A'' ''u1'')\<lparr>p_targetUserId := JStr ''nobody'', p_answer := JStr ''sdp''\<rparr>) lobby =
     (lobby, [])
   \<and> webrtc_answer_A ''s2''
        ((in_channel ''A'' ''u2'')\<lparr>p_targetUserId := JStr ''u1'', p_answer := JStr ''sdp''\<rparr>) lobby =
     (lobby, [(''s1'', Answer_A (JStr ''u2'') (JStr ''sdp''))])
   \<and> webrtc_ice_candidate_A ''s2''
        ((in_channel ''A'' ''u2'')\<lparr>p_targetUserId := JStr ''u1'', p_candidate := JStr ''ice''\<rparr>) lobby =
     (lobby, [(''s1'', Ice_A (JStr ''u2'') (JStr ''ice''))])
   \<and> room_sockets lobby (JStr ''s1'') = [''s1'']
   \<and> room_sockets (fst (run stale_events init)) (JStr ''s3'') = []
   \<and> snd (webrtc_answer_A ''s2''
        ((in_channel ''A'' ''u2'')\<lparr>p_targetUserId := JStr ''u1'', p_answer := JStr ''sdp''\<rparr>)
        (fst (join_channel ''s3'' 3 (in_channel ''s1'' ''u3'') lobby))) =
     [(''s1'', Answer_A (JStr ''u2'') (JStr ''sdp'')), (''s3'', Answer_A (JStr ''u2'') (JStr ''sdp''))]
   \<and> snd (webrtc_answer_A ''s1'' ((in_channel ''A'' ''u1'')\<lparr>p_answer := JStr ''sdp''\<rparr>)
        (fst (join_channel ''s3'' 3 (no_payload\<lparr>p_channelId := JStr ''A''\<rparr>) lobby))) =
     [(''s3'', Answer_A (JStr ''u1'') (JStr ''sdp''))]"
proof -
  let ?m1 = "\<lparr>m_userId = JStr ''u1'', m_socketId = ''s1'', m_joinedAt = 1\<rparr>"
  let ?mu = "\<lparr>m_userId = Undefined, m_socketId = ''s3'', m_joinedAt = 3\<rparr>"
  let ?n = "fst (join_channel ''s3'' 3 (no_payload\<lparr>p_channelId := JStr ''A''\<rparr>) lobby)"
  let ?a = "(in_channel ''A'' ''u1'')\<lparr>p_answer := JStr ''sdp''\<rparr>"
  let ?m2 = "\<lparr>m_userId = JStr ''u2'', m_socketId = ''s2'', m_joinedAt = 2\<rparr>"
  let ?m3 = "\<lparr>m_userId = JStr ''u3'', m_socketId = ''s3'', m_joinedAt = 3\<rparr>"
  let ?st = "fst (run stale_events init)"
  let ?j = "fst (join_channel ''s3'' 3 (in_channel ''s1'' ''u3'') lobby)"
  let ?q = "(in_channel ''A'' ''u2'')\<lparr>p_targetUserId := JStr ''u1'', p_answer := JStr ''sdp''\<rparr>"
  have m: "members_of lobby (JStr ''A'') = [(''s1'', ?m1), (''s2'', ?m2)]"
    by (simp add: members_of_def lobby_def js_get_def)
  have m': "members_of lobby (JStr ''A'') = [] @ (''s1'', ?m1) # [(''s2'', ?m2)]"
    by (simp add: m)
  have r: "room_sockets lobby (JStr ''A'') = [''s1'', ''s2'']"
    by (simp add: lobby_def room_sockets_def)
  have h0: "lobby = fst (run lobby_events init)"
    by (simp only: lobby_reachable fst_conv)
  have keeps: "list_all keeps_own_room lobby_events"
    by code_simp
  have rec: "(''s1'', ?m1) \<in> set (members_of lobby (JStr ''A''))"
    by (simp add: m)
  have free: "\<not> js_has (JStr ''s1'') (channels lobby)"
    by (simp add: lobby_def js_has_def js_get_def)
  have live: "''s1'' \<in> set (sockets lobby)"
    by (simp add: lobby_def)
  have own: "room_sockets lobby (JStr ''s1'') = [''s1'']"
  proof -
    from channel_scoped_addressing
           [of "''s1''" no_payload lobby "[]" "''s1''" ?m1 "[]" lobby_events "JStr ''A''"]
    have "delivered lobby_events init \<and> lobby = fst (run lobby_events init)
            \<and> (''s1'', ?m1) \<in> set (members_of lobby (JStr ''A''))
            \<and> \<not> js_has (JStr ''s1'') (channels lobby) \<longrightarrow>
          (''s1'' \<in> set (sockets lobby) \<and> list_all keeps_own_room lobby_events \<longrightarrow>
             room_sockets lobby (JStr ''s1'') = [''s1''])"
      by blast
    with lobby_delivered h0 rec free live keeps show ?thesis
      by blast
  qed
  have d: "delivered stale_events init"
    by code_simp
  have rec3: "(''s3'', ?m3) \<in> set (members_of ?st (JStr ''A''))"
    by code_simp
  have closed: "''s3'' \<notin> set (sockets ?st)"
    by code_simp
  have free3: "\<not> js_has (JStr ''s3'') (channels ?st)"
    by code_simp
  have gone: "room_sockets ?st (JStr ''s3'') = []"
  proof -
    from channel_scoped_addressing
           [of "''s1''" no_payload ?st "[]" "''s3''" ?m3 "[]" stale_events "JStr ''A''"]
    have "delivered stale_events init \<and> ?st = fst (run stale_events init)
            \<and> (''s3'', ?m3) \<in> set (members_of ?st (JStr ''A''))
            \<and> \<not> js_has (JStr ''s3'') (channels ?st) \<longrightarrow>
          (''s3'' \<notin> set (sockets ?st) \<longrightarrow> room_sockets ?st (JStr ''s3'') = [])"
      by blast
    with d rec3 closed free3 show ?thesis
      by blast
  qed
  have mj: "members_of ?j (p_channelId ?q) = [] @ (''s1'', ?m1) # [(''s2'', ?m2)]"
    by code_simp
  have rj: "room_sockets ?j (JStr ''s1'') = [''s1'', ''s3'']"
    by code_simp
  have shared: "snd (webrtc_answer_A ''s2'' ?q ?j) =
     [(''s1'', Answer_A (JStr ''u2'') (JStr ''sdp'')), (''s3'', Answer_A (JStr ''u2'') (JStr ''sdp''))]"
  proof -
    have q: "p_targetUserId ?q = JStr ''u1''" "p_userId ?q = JStr ''u2''"
            "p_answer ?q = JStr ''sdp''"
      by (simp_all add: in_channel_def)
    from channel_scoped_addressing
           [of "''s2''" ?q ?j "[]" "''s1''" ?m1 "[(''s2'', ?m2)]" "[]" "JStr ''A''"] mj
    have "webrtc_answer_A ''s2'' ?q ?j =
            (?j, map (\<lambda>j. (j, Answer_A (p_userId ?q) (p_answer ?q)))
                   (room_sockets ?j (JStr (m_socketId ?m1))))"
      by (simp add: js_values_def q(1))
    then show ?thesis
      by (simp add: q rj)
  qed
  have unnamed: "snd (webrtc_answer_A ''s1'' ?a ?n) = [(''s3'', Answer_A (JStr ''u1'') (JStr ''sdp''))]"
  proof -
    have a: "p_targetUserId ?a = Undefined" "p_userId ?a = JStr ''u1''"
            "p_answer ?a = JStr ''sdp''"
      by (simp_all add: in_channel_def no_payload_def)
    have mn: "members_of ?n (p_channelId ?a) =
                [(''s1'', ?m1), (''s2'', ?m2)] @ (''s3'', ?mu) # []"
      by code_simp
    have rn: "room_sockets ?n (JStr ''s3'') = [''s3'']"
      by code_simp
    from channel_scoped_addressing
           [of "''s1''" ?a ?n "[(''s1'', ?m1), (''s2'', ?m2)]" "''s3''" ?mu "[]" "[]" "JStr ''A''"] mn
    have "webrtc_answer_A ''s1'' ?a ?n =
            (?n, map (\<lambda>j. (j, Answer_A (p_userId ?a) (p_answer ?a)))
                   (room_sockets ?n (JStr (m_socketId ?mu))))"
      by (simp add: js_values_def a(1))
    then show ?thesis
      by (simp add: a rn)
  qed
  from channel_scoped_addressing
         [of "''s1''" "(in_channel ''A'' ''u1'')\<lparr>p_targetUserId := JStr ''u2'', p_offer := JStr ''sdp''\<rparr>"
             lobby]
       channel_scoped_addressing
         [of "''s1''" "(in_channel ''A'' ''u1'')\<lparr>p_candidate := JStr ''ice''\<rparr>" lobby]
       channel_scoped_addressing
         [of "''s1''" "(in_channel ''A'' ''u1'')\<lparr>p_targetUserId := JStr ''nobody'', p_answer := JStr ''sdp''\<rparr>"
             lobby]
       channel_scoped_addressing
         [of "''s2''" "(in_channel ''A'' ''u2'')\<lparr>p_targetUserId := JStr ''u1'', p_answer := JStr ''sdp''\<rparr>"
             lobby "[]" "''s1''" ?m1 "[(''s2'', ?m2)]"]
       channel_scoped_addressing
         [of "''s2''" "(in_channel ''A'' ''u2'')\<lparr>p_targetUserId := JStr ''u1'', p_candidate := JStr ''ice''\<rparr>"
             lobby "[]" "''s1''" ?m1 "[(''s2'', ?m2)]"]
       own gone shared unnamed
  show ?thesis
    by (simp add: in_channel_def no_payload_def m r js_values_def)
qed

section \<open>The events of a join\<close>

lemma events_to_Cons:
  "events_to k ((k', e) # out) = (if k' = k then e # events_to k out else events_to k out)"
  by (simp add: events_to_def)

lemma events_to_broadcast:
  "distinct xs \<Longrightarrow> events_to k (map (\<lambda>k'. (k', e)) xs) = (if k \<in> set xs then [e] else [])"
  by (induction xs) (auto simp: events_to_def)

lemma snapshot_after_join:
  "(case js_get c (channels s') of None \<Rightarrow> [] | Some ch \<Rightarrow> userList sid ch) =
     map m_userId (filter (\<lambda>u. m_socketId u \<noteq> sid) (js_values (members_of s' c)))"
  by (simp add: members_of_def userList_def js_values_def split: option.split)

lemma others_after_socket_join:
  "filter (\<lambda>k. k \<noteq> sid) (room_sockets (socket_join sid r s) r) =
     filter (\<lambda>k. k \<noteq> sid) (room_sockets s r)"
  by (simp add: room_sockets_socket_join)

lemma out_join_channel:
  "snd (join_channel sid now p s) =
     (sid, Channel_users
        (map m_userId (filter (\<lambda>u. m_socketId u \<noteq> sid)
           (js_values (members_of (fst (join_channel sid now p s)) (p_channelId p))))))
     # map (\<lambda>k. (k, User_joined (p_userId p)))
         (filter (\<lambda>k. k \<noteq> sid) (room_sockets s (p_channelId p)))"
proof -
  let ?c = "p_channelId p"
  define s3 where "s3 = s\<lparr>channels := channels (fst (join_channel sid now p s)),
                          users := users (fst (join_channel sid now p s))\<rparr>"
  have f: "fst (join_channel sid now p s) = socket_join sid ?c s3"
    by (simp add: join_channel_def Let_def s3_def socket_join_def)
  have r3: "room_sockets s3 ?c = room_sockets s ?c"
    by (simp add: s3_def)
  have "snd (join_channel sid now p s) =
          socket_emit sid (Channel_users
             (case js_get ?c (channels (fst (join_channel sid now p s))) of
                None \<Rightarrow> [] | Some ch \<Rightarrow> userList sid ch))
          @ socket_to (fst (join_channel sid now p s)) sid ?c (User_joined (p_userId p))"
    by (simp add: join_channel_def Let_def)
  then show ?thesis
    by (simp add: snapshot_after_join socket_emit_def socket_to_def f others_after_socket_join r3)
qed

lemma join_out:
  assumes notin: "\<not> js_has sid (members_of s (p_channelId p))"
      and keyed: "\<forall>(k, m) \<in> set (members_of s (p_channelId p)). m_socketId m = k"
  shows "snd (join_channel sid now p s) =
           (sid, Channel_users (map m_userId (js_values (members_of s (p_channelId p)))))
           # map (\<lambda>k. (k, User_joined (p_userId p)))
               (filter (\<lambda>k. k \<noteq> sid) (room_sockets s (p_channelId p)))"
proof -
  let ?c = "p_channelId p"
  let ?ms = "members_of s ?c"
  let ?new = "\<lparr>m_userId = p_userId p, m_socketId = sid, m_joinedAt = now\<rparr>"
  from notin have fresh: "sid \<notin> set (js_keys ?ms)"
    by (simp add: js_has_iff)
  then have absent: "js_get sid ?ms = None"
    by (simp add: js_get_None_iff)
  have after: "members_of (fst (join_channel sid now p s)) ?c = ?ms @ [(sid, ?new)]"
    by (simp add: members_after_join js_set_absent absent)
  have "m_socketId m \<noteq> sid" if "m \<in> set (js_values ?ms)" for m
  proof -
    from that obtain k where km: "(k, m) \<in> set ?ms"
      by (auto simp: js_values_def)
    with keyed have "m_socketId m = k"
      by blast
    moreover from km have "k \<in> set (js_keys ?ms)"
      by (force simp: js_keys_def)
    ultimately show ?thesis
      using fresh by blast
  qed
  then have kept: "filter (\<lambda>u. m_socketId u \<noteq> sid) (js_values ?ms) = js_values ?ms"
    by simp
  have snapshot:
    "map m_userId (filter (\<lambda>u. m_socketId u \<noteq> sid)
       (js_values (members_of (fst (join_channel sid now p s)) ?c))) =
     map m_userId (js_values ?ms)"
    using kept by (simp add: after js_values_def)
  show ?thesis
    by (simp add: out_join_channel snapshot)
qed

text \<open>What a join does in every state reached from the initial state by deliverable
  events, for a joiner that is not yet a member: the joiner is sent exactly one event, the
  snapshot with one userId for each record of the member map, in the order of the map;
  every member whose connection is live is sent exactly one event, the \<open>user-joined\<close> with
  the joiner's userId; and whoever else is sent something is bound to the room of the
  channel's name (a connection whose own id is the channel id). A record whose connection
  has closed is listed in the snapshot, and nothing can be sent to it.\<close>

lemma join_events:
  assumes del: "delivered es init"
      and reached: "s = fst (run es init)"
      and notin: "\<not> js_has sid (members_of s (p_channelId p))"
  shows "events_to sid (snd (join_channel sid now p s)) =
           [Channel_users (map m_userId (js_values (members_of s (p_channelId p))))]"
    and "k \<in> set (js_keys (members_of s (p_channelId p))) \<Longrightarrow> k \<in> set (sockets s) \<Longrightarrow>
           events_to k (snd (join_channel sid now p s)) = [User_joined (p_userId p)]"
    and "k \<noteq> sid \<Longrightarrow> (k, p_channelId p) \<notin> set (rooms s) \<Longrightarrow>
           events_to k (snd (join_channel sid now p s)) = []"
proof -
  let ?c = "p_channelId p"
  let ?ms = "members_of s ?c"
  let ?out = "snd (join_channel sid now p s)"
  let ?others = "filter (\<lambda>k. k \<noteq> sid) (room_sockets s ?c)"
  from del reached have inv: "well_formed s" and b: "bindings_ok s"
    by (rule reached_state)+
  from inv have keyed: "\<forall>(k, m) \<in> set ?ms. m_socketId m = k"
    using well_formed_members [of s ?c] by blast
  from inv have once: "distinct ?others"
    by (simp add: well_formed_room)
  from notin have fresh: "sid \<notin> set (js_keys ?ms)"
    by (simp add: js_has_iff)
  have out: "?out = (sid, Channel_users (map m_userId (js_values ?ms)))
                    # map (\<lambda>k. (k, User_joined (p_userId p))) ?others"
    using notin keyed by (rule join_out)
  show "events_to sid ?out = [Channel_users (map m_userId (js_values ?ms))]"
    by (simp add: out events_to_Cons events_to_broadcast once)
  show "events_to k ?out = [User_joined (p_userId p)]"
    if k: "k \<in> set (js_keys ?ms)" and l: "k \<in> set (sockets s)"
  proof -
    from b k l have "(k, ?c) \<in> set (rooms s)"
      by (rule bindings_ok_member)
    then have "k \<in> set (room_sockets s ?c)"
      by (simp add: in_room_sockets)
    with k fresh have "k \<in> set ?others" and "k \<noteq> sid"
      by auto
    then show ?thesis
      by (simp add: out events_to_Cons events_to_broadcast once del: set_filter)
  qed
  show "events_to k ?out = []" if "k \<noteq> sid" and "(k, ?c) \<notin> set (rooms s)"
    using that by (simp add: out events_to_Cons events_to_broadcast once in_room_sockets)
qed

text \<open>
  Claim C2. The handler lists the records of the channel's member map and notifies the
  connections bound to the channel's room. The two agree only as long as every record
  belongs to a live connection, and the handlers do not keep it so: \<open>join-channel\<close> does not
  remove the joiner from the channel it was in, and \<open>disconnect\<close> cleans the current channel
  only. The run below is deliverable: from the sample state \<open>s3\<close> joins \<open>A\<close> as \<open>u3\<close>, joins
  \<open>B\<close>, and disconnects; then \<open>s4\<close> connects and joins \<open>A\<close> as \<open>u4\<close>. When \<open>s4\<close> joins, it is
  not a member of \<open>A\<close> and the member map of \<open>A\<close> has three records, one of them of the
  closed connection \<open>s3\<close>. The snapshot sent to \<open>s4\<close> lists three userIds, \<open>u3\<close> among them,
  and two \<open>user-joined\<close> notifications are sent, not three: the member \<open>s3\<close> receives none.
\<close>

theorem closed_member_is_listed_and_not_notified:
  "delivered (stale_events @
       [(''s4'', 6, Connect), (''s4'', 7, Join (in_channel ''A'' ''u4''))]) init
   \<and> \<not> js_has ''s4''
         (members_of (fst (run (stale_events @ [(''s4'', 6, Connect)]) init)) (JStr ''A''))
   \<and> js_keys (members_of (fst (run (stale_events @ [(''s4'', 6, Connect)]) init)) (JStr ''A'')) =
       [''s1'', ''s2'', ''s3'']
   \<and> sockets (fst (run (stale_events @ [(''s4'', 6, Connect)]) init)) = [''s1'', ''s2'', ''s4'']
   \<and> snd (join_channel ''s4'' 7 (in_channel ''A'' ''u4'')
            (fst (run (stale_events @ [(''s4'', 6, Connect)]) init))) =
       [(''s4'', Channel_users [JStr ''u1'', JStr ''u2'', JStr ''u3'']),
        (''s1'', User_joined (JStr ''u4'')), (''s2'', User_joined (JStr ''u4''))]
   \<and> events_to ''s3''
        (snd (join_channel ''s4'' 7 (in_channel ''A'' ''u4'')
               (fst (run (stale_events @ [(''s4'', 6, Connect)]) init)))) = []
   \<and> snd (run (stale_events @
              [(''s4'', 6, Connect), (''s4'', 7, Join (in_channel ''A'' ''u4''))]) init) =
       snd (run (stale_events @ [(''s4'', 6, Connect)]) init) @
       [(''s4'', Channel_users [JStr ''u1'', JStr ''u2'', JStr ''u3'']),
        (''s1'', User_joined (JStr ''u4'')), (''s2'', User_joined (JStr ''u4''))]"
  by code_simp

section \<open>Membership and the current channel\<close>

text \<open>
  Claim C1. The claim is that I1 holds after every operation, a join to a second channel
  included. The join handler adds the connection to the new channel's member map and
  overwrites \<open>currentChannel\<close>, and nothing removes the connection from the member map of
  the channel it was in. The run below is deliverable. I1 holds in the sample state; after
  \<open>s1\<close>, a member of \<open>A\<close>, joins \<open>B\<close>, it does not: the current channel of \<open>s1\<close> is \<open>B\<close> and
  \<open>s1\<close> is still a member of \<open>A\<close>.
\<close>

theorem second_join_breaks_I1:
  "delivered (lobby_events @ [(''s1'', 3, Join (in_channel ''B'' ''u1''))]) init
   \<and> I1 (fst (run lobby_events init))
   \<and> \<not> I1 (fst (run (lobby_events @ [(''s1'', 3, Join (in_channel ''B'' ''u1''))]) init))
   \<and> map_option u_currentChannel
        (js_get ''s1''
           (users (fst (run (lobby_events @ [(''s1'', 3, Join (in_channel ''B'' ''u1''))]) init)))) =
       Some (JStr ''B'')
   \<and> js_has ''s1''
        (members_of (fst (run (lobby_events @ [(''s1'', 3, Join (in_channel ''B'' ''u1''))]) init))
           (JStr ''A''))"
  by code_simp

section \<open>Disconnect\<close>

text \<open>What the disconnect handler does for a registered connection whose \<open>currentChannel\<close> is
  truthy and names a channel of the directory: the connection is removed from that
  channel's members, the channel is deleted exactly when no member is left, and the
  registry entry is deleted. A second disconnect changes nothing and emits nothing,
  whatever the state.\<close>

lemma transport_close_twice: "transport_close sid (transport_close sid s) = transport_close sid s"
  by (simp add: transport_close_def)

lemma disconnect_twice:
  "disconnect sid (fst (disconnect sid s)) = (fst (disconnect sid s), [])"
proof -
  let ?s' = "fst (disconnect sid s)"
  have gone: "js_get sid (users ?s') = None"
    by (simp add: disconnect_def on_disconnect_def Let_def js_get_delete)
  have closed: "transport_close sid ?s' = ?s'"
    by (simp add: disconnect_def on_disconnect_def Let_def transport_close_def
        delete_if_empty_def users_delete_def split: option.split)
  show ?thesis
    using gone by (simp add: disconnect_def [of sid ?s'] closed on_disconnect_def Let_def
      js_delete_absent)
qed


lemma disconnect_cleans_current_channel:
  assumes reg: "js_get sid (users s) = Some u"
      and cur: "truthy (u_currentChannel u)"
      and dir: "js_has (u_currentChannel u) (channels s)"
  shows "members_of (fst (disconnect sid s)) (u_currentChannel u) =
           js_delete sid (members_of s (u_currentChannel u))
       \<and> js_has (u_currentChannel u) (channels (fst (disconnect sid s))) =
           (js_delete sid (members_of s (u_currentChannel u)) \<noteq> [])
       \<and> js_get sid (users (fst (disconnect sid s))) = None"
proof -
  let ?c = "u_currentChannel u"
  let ?t = "transport_close sid s"
  from dir obtain ch where ch: "js_get ?c (channels s) = Some ch"
    by (auto simp: js_has_def)
  have t: "users ?t = users s" "channels ?t = channels s"
    by (simp_all add: transport_close_def)
  have chans: "channels (fst (disconnect sid s)) =
                 channels (delete_if_empty ?c (users_delete sid ?c ?t))"
    by (simp add: disconnect_def on_disconnect_def Let_def t reg cur ch)
  have g: "js_get ?c (channels (users_delete sid ?c ?t)) =
             Some (ch\<lparr>c_users := js_delete sid (c_users ch)\<rparr>)"
    by (simp add: channels_users_delete t js_get_update ch)
  have m: "members_of s ?c = c_users ch"
    by (simp add: members_of_def ch)
  have gone: "js_get sid (users (fst (disconnect sid s))) = None"
    by (simp add: disconnect_def on_disconnect_def Let_def js_get_delete)
  show ?thesis
  proof (cases "js_delete sid (c_users ch) = []")
    case True
    then have "channels (fst (disconnect sid s)) =
                 js_delete ?c (channels (users_delete sid ?c ?t))"
      by (simp add: chans channels_delete_if_empty g)
    then have "js_get ?c (channels (fst (disconnect sid s))) = None"
      by (simp add: js_get_delete)
    with True gone show ?thesis
      by (simp add: members_of_def ch js_has_def)
  next
    case False
    then have "channels (fst (disconnect sid s)) = channels (users_delete sid ?c ?t)"
      by (simp add: chans channels_delete_if_empty g)
    with False g gone show ?thesis
      by (simp add: members_of_def ch js_has_def)
  qed
qed

text \<open>
  Claim C9. The handler cleans up \<open>channels.get(user.currentChannel)\<close> only, and only under
  the test \<open>user && user.currentChannel\<close>. Both runs below are deliverable. First run: from
  the sample state \<open>s3\<close> joins \<open>A\<close>, then \<open>B\<close>, then disconnects; it was a member of \<open>A\<close> when
  it disconnected and it still is afterwards, although its registry entry is gone. Second
  run: \<open>s3\<close> joins the channel whose id is the empty string and disconnects; the id is
  falsy, the cleanup is skipped, and the channel stays in the directory with the closed
  connection as its only member.
\<close>

theorem disconnect_leaves_stale_members:
  "delivered (lobby_events @ [(''s3'', 3, Join (in_channel ''A'' ''u3'')),
       (''s3'', 4, Join (in_channel ''B'' ''u3'')), (''s3'', 5, Disconnect)]) init
   \<and> js_keys (members_of
        (fst (run (lobby_events @ [(''s3'', 3, Join (in_channel ''A'' ''u3'')),
           (''s3'', 4, Join (in_channel ''B'' ''u3'')), (''s3'', 5, Disconnect)]) init))
        (JStr ''A'')) = [''s1'', ''s2'', ''s3'']
   \<and> js_get ''s3'' (users
        (fst (run (lobby_events @ [(''s3'', 3, Join (in_channel ''A'' ''u3'')),
           (''s3'', 4, Join (in_channel ''B'' ''u3'')), (''s3'', 5, Disconnect)]) init))) = None
   \<and> delivered (lobby_events @ [(''s3'', 3, Join (in_channel [] ''u3'')),
        (''s3'', 4, Disconnect)]) init
   \<and> js_keys (members_of
        (fst (run (lobby_events @ [(''s3'', 3, Join (in_channel [] ''u3'')),
           (''s3'', 4, Disconnect)]) init))
        (JStr [])) = [''s3'']
   \<and> js_get ''s3'' (users
        (fst (run (lobby_events @ [(''s3'', 3, Join (in_channel [] ''u3'')),
           (''s3'', 4, Disconnect)]) init))) = None"
  by code_simp

end
